theory Spec2Isabelle
  imports Main "HOL-Library.Word"
begin

unbundle bit_operations_syntax

section \<open>Numbers and bitwise operators of the source language\<close>

text \<open>
  The driver is TypeScript. Its numbers are modelled as \<open>int\<close>; the bitwise operators
  first convert both operands to a signed 32-bit integer (the language's ToInt32) and give
  a signed 32-bit result. A number used as a condition is true when it is not zero.
\<close>

definition toInt32 :: "int \<Rightarrow> int" where
  "toInt32 x = signed_take_bit 31 x"

definition js_and :: "int \<Rightarrow> int \<Rightarrow> int" where
  "js_and a b = toInt32 a AND toInt32 b"

definition js_or :: "int \<Rightarrow> int \<Rightarrow> int" where
  "js_or a b = toInt32 a OR toInt32 b"

definition js_xor :: "int \<Rightarrow> int \<Rightarrow> int" where
  "js_xor a b = toInt32 a XOR toInt32 b"

definition js_not :: "int \<Rightarrow> int" where
  "js_not a = NOT (toInt32 a)"

definition js_shl :: "int \<Rightarrow> nat \<Rightarrow> int" where
  "js_shl a k = toInt32 (push_bit (k mod 32) (toInt32 a))"

definition truthy :: "int \<Rightarrow> bool" where
  "truthy n = (n \<noteq> 0)"

section \<open>Register map, chip commands and card commands\<close>

definition CommandReg :: int where "CommandReg = 0x01"
definition CommIEnReg :: int where "CommIEnReg = 0x02"
definition DivIEnReg :: int where "DivIEnReg = 0x03"
definition CommIrqReg :: int where "CommIrqReg = 0x04"
definition DivIrqReg :: int where "DivIrqReg = 0x05"
definition ErrorReg :: int where "ErrorReg = 0x06"
definition Status1Reg :: int where "Status1Reg = 0x07"
definition Status2Reg :: int where "Status2Reg = 0x08"
definition FIFODataReg :: int where "FIFODataReg = 0x09"
definition FIFOLevelReg :: int where "FIFOLevelReg = 0x0A"
definition ControlReg :: int where "ControlReg = 0x0C"
definition BitFramingReg :: int where "BitFramingReg = 0x0D"
definition ModeReg :: int where "ModeReg = 0x11"
definition TxControlReg :: int where "TxControlReg = 0x14"
definition TModeReg :: int where "TModeReg = 0x2A"
definition TPrescalerReg :: int where "TPrescalerReg = 0x2B"
definition TReloadRegL :: int where "TReloadRegL = 0x2D"
definition TReloadRegH :: int where "TReloadRegH = 0x2C"
definition TxAutoReg :: int where "TxAutoReg = 0x15"
definition RFCfgReg :: int where "RFCfgReg = 0x26"

definition PCD_IDLE :: int where "PCD_IDLE = 0x00"
definition PCD_AUTHENT :: int where "PCD_AUTHENT = 0x0E"
definition PCD_RECEIVE :: int where "PCD_RECEIVE = 0x08"
definition PCD_TRANSMIT :: int where "PCD_TRANSMIT = 0x04"
definition PCD_TRANSCEIVE :: int where "PCD_TRANSCEIVE = 0x0C"
definition PCD_RESETPHASE :: int where "PCD_RESETPHASE = 0x0F"
definition PCD_CALCCRC :: int where "PCD_CALCCRC = 0x03"

definition PICC_REQIDL :: int where "PICC_REQIDL = 0x26"
definition PICC_REQALL :: int where "PICC_REQALL = 0x52"
definition PICC_ANTICOLL :: int where "PICC_ANTICOLL = 0x93"
definition PICC_SELECTTAG :: int where "PICC_SELECTTAG = 0x93"
definition PICC_AUTHENT1A :: int where "PICC_AUTHENT1A = 0x60"
definition PICC_AUTHENT1B :: int where "PICC_AUTHENT1B = 0x61"
definition PICC_READ :: int where "PICC_READ = 0x30"
definition PICC_WRITE :: int where "PICC_WRITE = 0xA0"
definition PICC_HALT :: int where "PICC_HALT = 0x50"

section \<open>The bus transport and the driver's state\<close>

text \<open>
  The pins, the serial bus and the clock are outside the driver (\<open>pins.digitalWritePin\<close>,
  \<open>pins.spiPins\<close>, \<open>pins.spiFrequency\<close>, \<open>pins.spiWrite\<close>, \<open>pins.spiRead\<close>,
  \<open>input.runningTime\<close>). A transport is any deterministic implementation of them over
  a device state \<open>'d\<close>. The driver ignores what \<open>pins.spiWrite\<close> returns.
\<close>

datatype DigitalPin = P8 | P12 | P13 | P14 | P15 | OtherPin nat

record 'd transport =
  pins_digitalWritePin :: "DigitalPin \<Rightarrow> int \<Rightarrow> 'd \<Rightarrow> 'd"
  pins_spiPins :: "DigitalPin \<Rightarrow> DigitalPin \<Rightarrow> DigitalPin \<Rightarrow> 'd \<Rightarrow> 'd"
  pins_spiFrequency :: "int \<Rightarrow> 'd \<Rightarrow> 'd"
  pins_spiWrite :: "int \<Rightarrow> 'd \<Rightarrow> 'd"
  pins_spiRead :: "'d \<Rightarrow> int \<times> 'd"
  input_runningTime :: "'d \<Rightarrow> int \<times> 'd"

text \<open>Every call of the transport is recorded, in order, with what it was given or gave.\<close>

datatype event =
    DigitalWrite DigitalPin int
  | SpiPins DigitalPin DigitalPin DigitalPin
  | SpiFrequency int
  | SpiWrite int
  | SpiRead int
  | RunningTime int

text \<open>
  The namespace's variables (\<open>_sdaPin\<close>, \<open>_rstPin\<close>, \<open>_sckPin\<close>, \<open>_mosiPin\<close>,
  \<open>_misoPin\<close>, \<open>_initialized\<close>), the device behind the transport and the record of
  the calls made so far.
\<close>

record 'd chip =
  sdaPin :: DigitalPin
  rstPin :: DigitalPin
  sckPin :: DigitalPin
  mosiPin :: DigitalPin
  misoPin :: DigitalPin
  initialized :: bool
  dev :: 'd
  trace :: "event list"

definition boot :: "'d \<Rightarrow> 'd chip" where
  "boot d = \<lparr>sdaPin = P8, rstPin = P12, sckPin = P13, mosiPin = P15, misoPin = P14,
             initialized = False, dev = d, trace = []\<rparr>"

definition digitalWritePin :: "'d transport \<Rightarrow> DigitalPin \<Rightarrow> int \<Rightarrow> 'd chip \<Rightarrow> 'd chip" where
  "digitalWritePin T p v w =
     w\<lparr>dev := pins_digitalWritePin T p v (dev w), trace := trace w @ [DigitalWrite p v]\<rparr>"

definition spiPins :: "'d transport \<Rightarrow> DigitalPin \<Rightarrow> DigitalPin \<Rightarrow> DigitalPin \<Rightarrow> 'd chip \<Rightarrow> 'd chip" where
  "spiPins T miso mosi sck w =
     w\<lparr>dev := pins_spiPins T miso mosi sck (dev w), trace := trace w @ [SpiPins miso mosi sck]\<rparr>"

definition spiFrequency :: "'d transport \<Rightarrow> int \<Rightarrow> 'd chip \<Rightarrow> 'd chip" where
  "spiFrequency T hz w =
     w\<lparr>dev := pins_spiFrequency T hz (dev w), trace := trace w @ [SpiFrequency hz]\<rparr>"

definition spiWrite :: "'d transport \<Rightarrow> int \<Rightarrow> 'd chip \<Rightarrow> 'd chip" where
  "spiWrite T b w =
     w\<lparr>dev := pins_spiWrite T b (dev w), trace := trace w @ [SpiWrite b]\<rparr>"

definition spiRead :: "'d transport \<Rightarrow> 'd chip \<Rightarrow> int \<times> 'd chip" where
  "spiRead T w =
     (case pins_spiRead T (dev w) of
        (b, d) \<Rightarrow> (b, w\<lparr>dev := d, trace := trace w @ [SpiRead b]\<rparr>))"

definition runningTime :: "'d transport \<Rightarrow> 'd chip \<Rightarrow> int \<times> 'd chip" where
  "runningTime T w =
     (case input_runningTime T (dev w) of
        (t, d) \<Rightarrow> (t, w\<lparr>dev := d, trace := trace w @ [RunningTime t]\<rparr>))"

section \<open>Register access\<close>

definition spiSetup :: "'d transport \<Rightarrow> 'd chip \<Rightarrow> 'd chip" where
  "spiSetup T w = spiFrequency T 1000000 (spiPins T (misoPin w) (mosiPin w) (sckPin w) w)"

definition writeRegister :: "'d transport \<Rightarrow> int \<Rightarrow> int \<Rightarrow> 'd chip \<Rightarrow> 'd chip" where
  "writeRegister T addr val w =
     (let address = js_and (js_shl addr 1) 0x7E;
          w1 = digitalWritePin T (sdaPin w) 0 w;
          w2 = spiWrite T address w1;
          w3 = spiWrite T val w2
      in digitalWritePin T (sdaPin w3) 1 w3)"

definition readRegister :: "'d transport \<Rightarrow> int \<Rightarrow> 'd chip \<Rightarrow> int \<times> 'd chip" where
  "readRegister T addr w =
     (let address = js_or (js_and (js_shl addr 1) 0x7E) 0x80;
          w1 = digitalWritePin T (sdaPin w) 0 w;
          w2 = spiWrite T address w1
      in case spiRead T w2 of
           (val, w3) \<Rightarrow> (val, digitalWritePin T (sdaPin w3) 1 w3))"

definition setBitMask :: "'d transport \<Rightarrow> int \<Rightarrow> int \<Rightarrow> 'd chip \<Rightarrow> 'd chip" where
  "setBitMask T reg msk w =
     (case readRegister T reg w of
        (tmp, w1) \<Rightarrow> writeRegister T reg (js_or tmp msk) w1)"

definition clearBitMask :: "'d transport \<Rightarrow> int \<Rightarrow> int \<Rightarrow> 'd chip \<Rightarrow> 'd chip" where
  "clearBitMask T reg msk w =
     (case readRegister T reg w of
        (tmp, w1) \<Rightarrow> writeRegister T reg (js_and tmp (js_not msk)) w1)"

definition antennaOn :: "'d transport \<Rightarrow> 'd chip \<Rightarrow> 'd chip" where
  "antennaOn T w =
     (case readRegister T TxControlReg w of
        (val, w1) \<Rightarrow>
          if js_and val 0x03 \<noteq> 0x03 then writeRegister T TxControlReg (js_or val 0x03) w1
          else w1)"

definition reset :: "'d transport \<Rightarrow> 'd chip \<Rightarrow> 'd chip" where
  "reset T w = writeRegister T CommandReg PCD_RESETPHASE w"

section \<open>CRC coprocessor\<close>

text \<open>The loop that writes every byte of a buffer, in order, into the FIFO data register.\<close>

primrec write_fifo :: "'d transport \<Rightarrow> int list \<Rightarrow> 'd chip \<Rightarrow> 'd chip" where
  "write_fifo T [] w = w"
| "write_fifo T (b # bs) w = write_fifo T bs (writeRegister T FIFODataReg b w)"

text \<open>
  The wait loop of \<open>calculateCRC\<close>: \<open>for (let i = 0; i < 255; i++)\<close>, entered with
  \<open>i = 0\<close>.
\<close>

function crc_wait :: "'d transport \<Rightarrow> nat \<Rightarrow> 'd chip \<Rightarrow> int list \<times> 'd chip" where
  "crc_wait T i w =
     (if i < 255 then
        (case readRegister T DivIrqReg w of
           (n, w1) \<Rightarrow>
             if truthy (js_and n 0x04) then
               (case readRegister T 0x22 w1 of
                  (l, w2) \<Rightarrow>
                    (case readRegister T 0x21 w2 of
                       (h, w3) \<Rightarrow> ([l, h], w3)))
             else crc_wait T (i + 1) w1)
      else ([0, 0], w))"
  by pat_completeness auto
termination
  by (relation "measure (\<lambda>(T, i, w). 255 - i)") auto

text \<open>The steps of \<open>calculateCRC\<close> before its wait loop.\<close>

definition crc_setup :: "'d transport \<Rightarrow> int list \<Rightarrow> 'd chip \<Rightarrow> 'd chip" where
  "crc_setup T data w =
     (let w1 = writeRegister T CommandReg PCD_IDLE w;
          w2 = setBitMask T DivIrqReg 0x04 w1;
          w3 = writeRegister T FIFOLevelReg 0x80 w2;
          w4 = write_fifo T data w3
      in writeRegister T CommandReg PCD_CALCCRC w4)"

definition calculateCRC :: "'d transport \<Rightarrow> int list \<Rightarrow> 'd chip \<Rightarrow> int list \<times> 'd chip" where
  "calculateCRC T data w = crc_wait T 0 (crc_setup T data w)"

section \<open>Hexadecimal display of a byte list\<close>

definition hexDigit :: "nat \<Rightarrow> char" where
  "hexDigit d = ''0123456789abcdef'' ! d"

text \<open>\<open>toString(16)\<close> of a number that is a non-negative integer.\<close>

function toString16 :: "nat \<Rightarrow> string" where
  "toString16 n = (if n < 16 then [hexDigit n] else toString16 (n div 16) @ [hexDigit (n mod 16)])"
  by pat_completeness auto
termination
  by (relation "measure (\<lambda>n. n)") auto

definition toUpperCaseChar :: "char \<Rightarrow> char" where
  "toUpperCaseChar c =
     (let n = (of_char c :: nat) in if 97 \<le> n \<and> n \<le> 122 then char_of (n - 32) else c)"

definition toUpperCase :: "string \<Rightarrow> string" where
  "toUpperCase s = map toUpperCaseChar s"

text \<open>One turn of the loop of \<open>toHexString\<close> without the separator: two digits of the low byte.\<close>

definition hexByte :: "int \<Rightarrow> string" where
  "hexByte x =
     (let t = js_and x 0xFF;
          h = toString16 (nat t)
      in if length h = 1 then ''0'' @ h else h)"

text \<open>
  The loop of \<open>toHexString\<close>, before the final \<open>toUpperCase\<close>: a \<open>:\<close> follows every
  element but the last (\<open>i < arr.length - 1\<close>).
\<close>

fun hexJoin :: "int list \<Rightarrow> string" where
  "hexJoin [] = []"
| "hexJoin [x] = hexByte x"
| "hexJoin (x # y # ys) = hexByte x @ '':'' @ hexJoin (y # ys)"

definition toHexString :: "int list \<Rightarrow> string" where
  "toHexString arr = toUpperCase (hexJoin arr)"

section \<open>Command engine\<close>

record result =
  status :: bool
  backData :: "int list"
  backBits :: int

text \<open>The choice of \<open>irqEn\<close> and \<open>waitIRq\<close> by the command.\<close>

definition irq_masks :: "int \<Rightarrow> int \<times> int" where
  "irq_masks command = (if command = PCD_TRANSCEIVE then (0x77, 0x30) else (0x12, 0x00))"

text \<open>Everything from the first register write to the start of the transmission.\<close>

definition arm :: "'d transport \<Rightarrow> int \<Rightarrow> int list \<Rightarrow> 'd chip \<Rightarrow> 'd chip" where
  "arm T command sendData w =
     (let irqEn = fst (irq_masks command);
          w1 = writeRegister T CommIEnReg (js_or irqEn 0x80) w;
          w2 = clearBitMask T CommIrqReg 0x80 w1;
          w3 = setBitMask T FIFOLevelReg 0x80 w2;
          w4 = writeRegister T CommandReg PCD_IDLE w3;
          w5 = write_fifo T sendData w4;
          w6 = writeRegister T CommandReg command w5
      in if command = PCD_TRANSCEIVE then setBitMask T BitFramingReg 0x80 w6 else w6)"

text \<open>
  The loop \<open>while (true)\<close> that waits for data. It has no bound of its own: where it never
  leaves, the value is \<open>None\<close>.
\<close>

partial_function (option) wait_for_data ::
  "'d transport \<Rightarrow> int \<Rightarrow> int \<Rightarrow> int \<Rightarrow> 'd chip \<Rightarrow> 'd chip option" where
  "wait_for_data T waitIRq start timeoutMs w =
     (case readRegister T CommIrqReg w of
        (n, w1) \<Rightarrow>
          if truthy (js_and n waitIRq) then Some w1
          else if truthy (js_and n 0x01) then Some w1
          else (case runningTime T w1 of
                  (now, w2) \<Rightarrow>
                    if now - start > timeoutMs then Some w2
                    else wait_for_data T waitIRq start timeoutMs w2))"

declare wait_for_data.simps [code]

text \<open>The loop that drains the FIFO: \<open>for (let j = 0; j < fifoLevel; j++)\<close>.\<close>

primrec read_fifo :: "'d transport \<Rightarrow> nat \<Rightarrow> 'd chip \<Rightarrow> int list \<times> 'd chip" where
  "read_fifo T 0 w = ([], w)"
| "read_fifo T (Suc k) w =
     (case readRegister T FIFODataReg w of
        (b, w1) \<Rightarrow>
          (case read_fifo T k w1 of
             (bs, w2) \<Rightarrow> (b # bs, w2)))"

text \<open>Everything after the wait loop.\<close>

definition collect :: "'d transport \<Rightarrow> int \<Rightarrow> 'd chip \<Rightarrow> result \<times> 'd chip" where
  "collect T command w =
     (let w1 = clearBitMask T BitFramingReg 0x80 w
      in case readRegister T ErrorReg w1 of
           (error, w2) \<Rightarrow>
             (case readRegister T CommIrqReg w2 of
                (irq, w3) \<Rightarrow>
                  if truthy (js_and irq 0x01) \<or> truthy (js_and error 0x1B) then
                    (\<lparr>status = False, backData = [], backBits = 0\<rparr>, w3)
                  else if command = PCD_TRANSCEIVE then
                    (case readRegister T FIFOLevelReg w3 of
                       (fifoLevel, w4) \<Rightarrow>
                         (case read_fifo T (nat fifoLevel) w4 of
                            (bd, w5) \<Rightarrow>
                              (case readRegister T ControlReg w5 of
                                 (c, w6) \<Rightarrow>
                                   (\<lparr>status = True, backData = bd, backBits = js_and c 0x07\<rparr>, w6))))
                  else (\<lparr>status = True, backData = [], backBits = 0\<rparr>, w3)))"

definition communicateWithPICC ::
  "'d transport \<Rightarrow> int \<Rightarrow> int list \<Rightarrow> int \<Rightarrow> 'd chip \<Rightarrow> (result \<times> 'd chip) option" where
  "communicateWithPICC T command sendData timeoutMs w =
     (let waitIRq = snd (irq_masks command);
          w1 = arm T command sendData w
      in case runningTime T w1 of
           (start, w2) \<Rightarrow>
             (case wait_for_data T waitIRq start timeoutMs w2 of
                None \<Rightarrow> None
              | Some w3 \<Rightarrow> Some (collect T command w3)))"

section \<open>Public operations\<close>

definition init :: "'d transport \<Rightarrow> DigitalPin \<Rightarrow> DigitalPin \<Rightarrow> 'd chip \<Rightarrow> 'd chip" where
  "init T sda rst w =
     (let w0 = w\<lparr>sdaPin := sda, rstPin := rst\<rparr>;
          w1 = digitalWritePin T (sdaPin w0) 1 w0;
          w2 = digitalWritePin T (rstPin w1) 1 w1;
          w3 = spiSetup T w2;
          w4 = reset T w3;
          w5 = writeRegister T TModeReg 0x8D w4;
          w6 = writeRegister T TPrescalerReg 0x3E w5;
          w7 = writeRegister T TReloadRegL 30 w6;
          w8 = writeRegister T TReloadRegH 0 w7;
          w9 = writeRegister T TxAutoReg 0x40 w8;
          w10 = writeRegister T ModeReg 0x3D w9;
          w11 = antennaOn T w10
      in w11\<lparr>initialized := True\<rparr>)"

definition tagPresent :: "'d transport \<Rightarrow> 'd chip \<Rightarrow> (bool \<times> 'd chip) option" where
  "tagPresent T w =
     (if \<not> initialized w then Some (False, w)
      else
        (let w1 = writeRegister T BitFramingReg 0x07 w
         in case communicateWithPICC T PCD_TRANSCEIVE [PICC_REQIDL] 200 w1 of
              None \<Rightarrow> None
            | Some (res, w2) \<Rightarrow> Some (status res \<and> length (backData res) > 0, w2)))"

definition readUID :: "'d transport \<Rightarrow> 'd chip \<Rightarrow> (string \<times> 'd chip) option" where
  "readUID T w =
     (if \<not> initialized w then Some ([], w)
      else
        (let w1 = writeRegister T BitFramingReg 0x07 w
         in case communicateWithPICC T PCD_TRANSCEIVE [PICC_REQIDL] 200 w1 of
              None \<Rightarrow> None
            | Some (res, w2) \<Rightarrow>
                if \<not> status res \<or> length (backData res) = 0 then Some ([], w2)
                else
                  (let w3 = writeRegister T BitFramingReg 0x00 w2
                   in case communicateWithPICC T PCD_TRANSCEIVE [PICC_ANTICOLL, 0x20] 200 w3 of
                        None \<Rightarrow> None
                      | Some (res2, w4) \<Rightarrow>
                          if \<not> status res2 \<or> length (backData res2) < 5 then Some ([], w4)
                          else
                            (let uid = take 5 (backData res2);
                                 bcc = fold (\<lambda>b acc. js_xor acc b) (take 4 uid) 0;
                                 mismatch = (bcc \<noteq> uid ! 4);
                                 uid4 = take 4 uid
                             in Some (toHexString uid4, w4)))))"

definition haltTag :: "'d transport \<Rightarrow> 'd chip \<Rightarrow> 'd chip option" where
  "haltTag T w =
     (if \<not> initialized w then Some w
      else
        (case calculateCRC T [PICC_HALT, 0x00] w of
           (crc, w1) \<Rightarrow>
             (let buf = [PICC_HALT, 0x00] @ [crc ! 0] @ [crc ! 1]
              in case communicateWithPICC T PCD_TRANSCEIVE buf 200 w1 of
                   None \<Rightarrow> None
                 | Some (res, w2) \<Rightarrow> Some w2)))"

definition readReg :: "'d transport \<Rightarrow> int \<Rightarrow> 'd chip \<Rightarrow> int \<times> 'd chip" where
  "readReg T addr w = readRegister T addr w"

section \<open>Two transports to run the driver on\<close>

text \<open>
  A scripted device answers the reads of the bus from a list, in order, and with 0 once the
  list is used up; its clock moves on by a fixed step at every reading of the time.
\<close>

record script =
  replies :: "int list"
  clock :: int
  tick :: int

definition scripted :: "script transport" where
  "scripted =
     \<lparr>pins_digitalWritePin = (\<lambda>p v d. d),
      pins_spiPins = (\<lambda>miso mosi sck d. d),
      pins_spiFrequency = (\<lambda>hz d. d),
      pins_spiWrite = (\<lambda>b d. d),
      pins_spiRead = (\<lambda>d. case replies d of [] \<Rightarrow> (0, d) | b # bs \<Rightarrow> (b, d\<lparr>replies := bs\<rparr>)),
      input_runningTime = (\<lambda>d. (clock d, d\<lparr>clock := clock d + tick d\<rparr>))\<rparr>"

text \<open>
  A register file keeps what is written to it: the first byte after a chip select is the
  framed address, a second written byte is stored there, a read gives the stored value.
\<close>

record regfile =
  cells :: "int \<Rightarrow> int"
  header :: "int option"

definition memory :: "regfile transport" where
  "memory =
     \<lparr>pins_digitalWritePin = (\<lambda>p v d. d\<lparr>header := None\<rparr>),
      pins_spiPins = (\<lambda>miso mosi sck d. d),
      pins_spiFrequency = (\<lambda>hz d. d),
      pins_spiWrite = (\<lambda>b d. case header d of
                                 None \<Rightarrow> d\<lparr>header := Some b\<rparr>
                               | Some a \<Rightarrow> d\<lparr>cells := (cells d)(a := b)\<rparr>),
      pins_spiRead = (\<lambda>d. case header d of
                             None \<Rightarrow> (0, d)
                           | Some a \<Rightarrow> (cells d (a - 0x80), d)),
      input_runningTime = (\<lambda>d. (0, d))\<rparr>"

section \<open>Notions used to state the properties\<close>

text \<open>The state after \<open>k\<close> reads of a register in a row, and the value the next read gives.\<close>

definition polled :: "'d transport \<Rightarrow> int \<Rightarrow> nat \<Rightarrow> 'd chip \<Rightarrow> 'd chip" where
  "polled T reg k w = ((\<lambda>u. snd (readRegister T reg u)) ^^ k) w"

definition seen :: "'d transport \<Rightarrow> int \<Rightarrow> 'd chip \<Rightarrow> nat \<Rightarrow> int" where
  "seen T reg w k = fst (readRegister T reg (polled T reg k w))"

text \<open>The calls of the transport that one read, and one write, of a register consists of.\<close>

definition read_frame :: "DigitalPin \<Rightarrow> int \<Rightarrow> int \<Rightarrow> event list" where
  "read_frame cs addr b =
     [DigitalWrite cs 0, SpiWrite (js_or (js_and (js_shl addr 1) 0x7E) 0x80), SpiRead b,
      DigitalWrite cs 1]"

definition write_frame :: "DigitalPin \<Rightarrow> int \<Rightarrow> int \<Rightarrow> event list" where
  "write_frame cs addr v =
     [DigitalWrite cs 0, SpiWrite (js_and (js_shl addr 1) 0x7E), SpiWrite v, DigitalWrite cs 1]"

text \<open>
  The register writes in a record of transport calls: the framed address and the value of
  every chip select followed by two bytes written.
\<close>

fun reg_writes :: "event list \<Rightarrow> (int \<times> int) list" where
  "reg_writes (DigitalWrite p x # SpiWrite a # SpiWrite v # es) = (a, v) # reg_writes es"
| "reg_writes (e # es) = reg_writes es"
| "reg_writes [] = []"

text \<open>What a call added to the record of transport calls.\<close>

definition added :: "'d chip \<Rightarrow> 'd chip \<Rightarrow> event list" where
  "added w w' = drop (length (trace w)) (trace w')"

text \<open>
  What the wait loop of \<open>calculateCRC\<close> comes to when it may still poll \<open>n\<close> times:
  the first poll that shows the CRC-ready bit (bit 2, value 0x04) is followed by a read of
  register 0x22 and a read of register 0x21, which are returned in this order; with no such
  poll among the \<open>n\<close>, the result is two zeros.
\<close>

definition crc_outcome :: "'d transport \<Rightarrow> nat \<Rightarrow> 'd chip \<Rightarrow> int list \<times> 'd chip" where
  "crc_outcome T n w =
     (case find (\<lambda>j. bit (seen T DivIrqReg w j) 2) [0..<n] of
        None \<Rightarrow> ([0, 0], polled T DivIrqReg n w)
      | Some k \<Rightarrow>
          (case readRegister T 0x22 (polled T DivIrqReg (Suc k) w) of
             (l, w1) \<Rightarrow>
               (case readRegister T 0x21 w1 of
                  (h, w2) \<Rightarrow> ([l, h], w2))))"

text \<open>The transport calls of that loop: the polls, then the two reads of the result.\<close>

definition crc_calls :: "'d transport \<Rightarrow> nat \<Rightarrow> 'd chip \<Rightarrow> event list" where
  "crc_calls T n w =
     (case find (\<lambda>j. bit (seen T DivIrqReg w j) 2) [0..<n] of
        None \<Rightarrow> concat (map (\<lambda>j. read_frame (sdaPin w) DivIrqReg (seen T DivIrqReg w j)) [0..<n])
      | Some k \<Rightarrow>
          concat (map (\<lambda>j. read_frame (sdaPin w) DivIrqReg (seen T DivIrqReg w j)) [0..<Suc k])
          @ read_frame (sdaPin w) 0x22 (hd (fst (crc_outcome T n w)))
          @ read_frame (sdaPin w) 0x21 (hd (tl (fst (crc_outcome T n w)))))"

text \<open>
  What the engine reads once the wait loop has left in state \<open>w\<close>: the error register,
  then the communication-interrupt register, both after the start-send bit is cleared.
\<close>

definition error_read :: "'d transport \<Rightarrow> 'd chip \<Rightarrow> int" where
  "error_read T w = fst (readRegister T ErrorReg (clearBitMask T BitFramingReg 0x80 w))"

definition irq_read :: "'d transport \<Rightarrow> 'd chip \<Rightarrow> int" where
  "irq_read T w =
     fst (readRegister T CommIrqReg
           (snd (readRegister T ErrorReg (clearBitMask T BitFramingReg 0x80 w))))"

text \<open>The state in which the wait loop of an exchange is entered, and the time taken as its start.\<close>

definition wait_entry :: "'d transport \<Rightarrow> int \<Rightarrow> int list \<Rightarrow> 'd chip \<Rightarrow> int \<times> 'd chip" where
  "wait_entry T command sendData w = runningTime T (arm T command sendData w)"

text \<open>The namespace's variables are the same in two states.\<close>

definition same_vars :: "'d chip \<Rightarrow> 'd chip \<Rightarrow> bool" where
  "same_vars w w' =
     (sdaPin w' = sdaPin w \<and> rstPin w' = rstPin w \<and> sckPin w' = sckPin w
      \<and> mosiPin w' = mosiPin w \<and> misoPin w' = misoPin w \<and> initialized w' = initialized w)"

text \<open>The readings of the clock in a record of transport calls.\<close>

fun time_readings :: "event list \<Rightarrow> int list" where
  "time_readings [] = []"
| "time_readings (RunningTime t # es) = t # time_readings es"
| "time_readings (e # es) = time_readings es"

text \<open>The condition on which the engine gives up after the wait loop has left in state \<open>w\<close>.\<close>

definition failed :: "'d transport \<Rightarrow> 'd chip \<Rightarrow> bool" where
  "failed T w = (bit (irq_read T w) 0 \<or> bit (error_read T w) 0 \<or> bit (error_read T w) 1
                 \<or> bit (error_read T w) 3 \<or> bit (error_read T w) 4)"

text \<open>
  The two exchanges of \<open>readUID\<close>, each with the write of the bit-framing register before
  it: the request from the state in which \<open>readUID\<close> is called, the anticollision from
  the state the request left.
\<close>

definition request_exchange :: "'d transport \<Rightarrow> 'd chip \<Rightarrow> (result \<times> 'd chip) option" where
  "request_exchange T w =
     communicateWithPICC T PCD_TRANSCEIVE [PICC_REQIDL] 200 (writeRegister T BitFramingReg 0x07 w)"

definition anticoll_exchange :: "'d transport \<Rightarrow> 'd chip \<Rightarrow> (result \<times> 'd chip) option" where
  "anticoll_exchange T w =
     communicateWithPICC T PCD_TRANSCEIVE [PICC_ANTICOLL, 0x20] 200
       (writeRegister T BitFramingReg 0x00 w)"

text \<open>
  The state of \<open>init\<close> when it calls \<open>antennaOn\<close>, and the value that \<open>antennaOn\<close>
  then reads from the transmit-control register.
\<close>

definition before_antenna :: "'d transport \<Rightarrow> DigitalPin \<Rightarrow> DigitalPin \<Rightarrow> 'd chip \<Rightarrow> 'd chip" where
  "before_antenna T sda rst w =
     writeRegister T ModeReg 0x3D
       (writeRegister T TxAutoReg 0x40
         (writeRegister T TReloadRegH 0
           (writeRegister T TReloadRegL 30
             (writeRegister T TPrescalerReg 0x3E
               (writeRegister T TModeReg 0x8D
                 (reset T
                   (spiSetup T
                     (digitalWritePin T rst 1
                       (digitalWritePin T sda 1 (w\<lparr>sdaPin := sda, rstPin := rst\<rparr>))))))))))"

definition antenna_read :: "'d transport \<Rightarrow> DigitalPin \<Rightarrow> DigitalPin \<Rightarrow> 'd chip \<Rightarrow> int" where
  "antenna_read T sda rst w = fst (readRegister T TxControlReg (before_antenna T sda rst w))"

text \<open>
  The register writes of \<open>init\<close>, as framed address and value: the seven that it always
  makes, and the one of \<open>antennaOn\<close>, which depends on the value read.
\<close>

definition init_writes :: "(int \<times> int) list" where
  "init_writes =
     [(0x02, 0x0F), (0x54, 0x8D), (0x56, 0x3E), (0x5A, 30), (0x58, 0), (0x2A, 0x40), (0x22, 0x3D)]"

definition antenna_writes :: "int \<Rightarrow> (int \<times> int) list" where
  "antenna_writes val = (if js_and val 0x03 \<noteq> 0x03 then [(0x28, js_or val 0x03)] else [])"

text \<open>
  One turn of the wait loop that does not leave it: the state after the poll and the reading
  of the clock; and the time that the turn entered in state \<open>w\<close> reads.
\<close>

definition spin :: "'d transport \<Rightarrow> 'd chip \<Rightarrow> 'd chip" where
  "spin T w = snd (runningTime T (snd (readRegister T CommIrqReg w)))"

definition time_read :: "'d transport \<Rightarrow> 'd chip \<Rightarrow> int" where
  "time_read T w = fst (runningTime T (snd (readRegister T CommIrqReg w)))"

text \<open>
  Reading a display string back: the value of an upper-case hexadecimal digit, and the bytes
  of a string of two-digit groups separated by colons.
\<close>

definition hexValue :: "char \<Rightarrow> nat" where
  "hexValue c = (let n = (of_char c :: nat) in if n \<le> 57 then n - 48 else n - 55)"

fun unhex :: "string \<Rightarrow> int list" where
  "unhex (c1 # c2 # c3 # cs) =
     (if c3 = CHR '':'' then int (16 * hexValue c1 + hexValue c2) # unhex cs else [])"
| "unhex [c1, c2] = [int (16 * hexValue c1 + hexValue c2)]"
| "unhex cs = []"

section \<open>States to run the driver from\<close>

text \<open>
  A scripted card: it answers the request with two bytes and the anticollision with the
  identifier 12 34 56 78 and a fifth byte \<open>bcc\<close>; both exchanges show the wait flag at the
  first poll and no error.
\<close>

definition card :: "int \<Rightarrow> script chip" where
  "card bcc =
     (boot \<lparr>replies = [0, 0, 0, 0x30, 0, 0, 0x30, 2, 0x04, 0x00, 0,
                        0, 0, 0, 0x30, 0, 0, 0x30, 5, 0x12, 0x34, 0x56, 0x78, bcc, 0],
            clock = 0, tick = 1\<rparr>)\<lparr>initialized := True\<rparr>"

text \<open>
  Two more scripted cards: with none in the field the timer flag ends the request; a card
  that answers the anticollision with three bytes only.
\<close>

definition no_card :: "script chip" where
  "no_card =
     (boot \<lparr>replies = [0, 0, 0, 0x01, 0, 0, 0x01], clock = 0, tick = 1\<rparr>)\<lparr>initialized := True\<rparr>"

definition short_card :: "script chip" where
  "short_card =
     (boot \<lparr>replies = [0, 0, 0, 0x30, 0, 0, 0x30, 2, 0x04, 0x00, 0,
                        0, 0, 0, 0x30, 0, 0, 0x30, 3, 0x12, 0x34, 0x56, 0],
            clock = 0, tick = 1\<rparr>)\<lparr>initialized := True\<rparr>"

text \<open>
  A scripted card for \<open>haltTag\<close>: the CRC is ready at the first poll, with result bytes
  0x57 and 0xCD; the exchange that follows ends with the timer flag.
\<close>

definition deaf_card :: "script chip" where
  "deaf_card =
     (boot \<lparr>replies = [0, 4, 0x57, 0xCD, 0, 0, 0, 0x01, 0, 0, 0x01],
            clock = 0, tick = 1\<rparr>)\<lparr>initialized := True\<rparr>"

text \<open>A register file with zeros everywhere, and a chip that was never initialised on a script.\<close>

definition blank :: "regfile chip" where
  "blank = boot \<lparr>cells = (\<lambda>a. 0), header = None\<rparr>"

definition fresh :: "script chip" where
  "fresh = boot \<lparr>replies = [0x92], clock = 0, tick = 1\<rparr>"

text \<open>
  A scripted exchange in which the wait flag is up at the first poll and stays up, while the
  error register shows the CRC error bit (0x08).
\<close>

definition noisy_card :: "script chip" where
  "noisy_card = boot \<lparr>replies = [0, 0, 0, 0x30, 0, 0x08, 0x30], clock = 0, tick = 1\<rparr>"

text \<open>A scripted device with nothing to say: every read of the bus gives 0.\<close>

definition silent :: "script chip" where
  "silent = boot \<lparr>replies = [], clock = 0, tick = 1\<rparr>"

section \<open>Facts about the bitwise operators\<close>

lemmas reg_defs =
  CommandReg_def CommIEnReg_def DivIEnReg_def CommIrqReg_def DivIrqReg_def ErrorReg_def
  Status1Reg_def Status2Reg_def FIFODataReg_def FIFOLevelReg_def ControlReg_def
  BitFramingReg_def ModeReg_def TxControlReg_def TModeReg_def TPrescalerReg_def
  TReloadRegL_def TReloadRegH_def TxAutoReg_def RFCfgReg_def

lemmas cmd_defs =
  PCD_IDLE_def PCD_AUTHENT_def PCD_RECEIVE_def PCD_TRANSMIT_def PCD_TRANSCEIVE_def
  PCD_RESETPHASE_def PCD_CALCCRC_def PICC_REQIDL_def PICC_REQALL_def PICC_ANTICOLL_def
  PICC_SELECTTAG_def PICC_AUTHENT1A_def PICC_AUTHENT1B_def PICC_READ_def PICC_WRITE_def
  PICC_HALT_def

lemma toInt32_id: "- (2^31) \<le> x \<Longrightarrow> x < 2^31 \<Longrightarrow> toInt32 x = x"
  unfolding toInt32_def by (simp add: signed_take_bit_int_eq_self)

lemma and_63_id: "0 \<le> (a::int) \<Longrightarrow> a \<le> 63 \<Longrightarrow> a AND 63 = a"
proof -
  assume h: "0 \<le> a" "a \<le> 63"
  have "take_bit 6 a = a" using h by (simp add: take_bit_int_eq_self)
  moreover have "(63::int) = mask 6" by (simp add: mask_eq_exp_minus_1)
  ultimately show ?thesis by (simp add: take_bit_eq_mask)
qed

lemma js_shl_1: 
  assumes "0 \<le> addr" "addr \<le> 63"
  shows "js_shl addr 1 = 2 * addr"
proof -
  have a: "toInt32 addr = addr" using assms by (intro toInt32_id) auto
  have b: "toInt32 (2 * addr) = 2 * addr" using assms by (intro toInt32_id) auto
  have "js_shl addr 1 = toInt32 (push_bit 1 addr)" by (simp add: js_shl_def a)
  also have "push_bit 1 addr = 2 * addr" by (simp add: push_bit_eq_mult)
  finally show ?thesis using b by simp
qed

lemma frame_write: 
  assumes "0 \<le> addr" "addr \<le> 63"
  shows "js_and (js_shl addr 1) 0x7E = 2 * addr"
proof -
  have b: "toInt32 (2 * addr) = 2 * addr" using assms by (intro toInt32_id) auto
  have c: "toInt32 126 = 126" by (intro toInt32_id) auto
  have "push_bit 1 addr AND push_bit 1 (63::int) = push_bit 1 (addr AND 63)"
    by (simp only: push_bit_and)
  then have "2 * addr AND 126 = 2 * addr"
    using assms by (simp add: and_63_id push_bit_eq_mult mult.commute)
  then show ?thesis
    unfolding js_and_def js_shl_1[OF assms] b c .
qed

lemma frame_read: 
  assumes "0 \<le> addr" "addr \<le> 63"
  shows "js_or (js_and (js_shl addr 1) 0x7E) 0x80 = 2 * addr + 128"
proof -
  have b: "toInt32 (2 * addr) = 2 * addr" using assms by (intro toInt32_id) auto
  have c: "toInt32 128 = 128" by (intro toInt32_id) auto
  have "\<not> bit (2 * addr) 7" using assms by (simp add: bit_iff_odd)
  then have "2 * addr AND 2 ^ 7 = 0" by (simp add: and_exp_eq_0_iff_not_bit del: power_numeral)
  then have "2 * addr AND 128 = 0" by simp
  then have "2 * addr OR 128 = 2 * addr + 128"
    by (rule disjunctive_add_eq_or[symmetric])
  then show ?thesis
    unfolding frame_write[OF assms] js_or_def b c .
qed

lemma bit_toInt32: "n < 32 \<Longrightarrow> bit (toInt32 x) n = bit x n"
  by (cases "n = 31") (auto simp add: toInt32_def bit_signed_take_bit_iff min_def)

lemma and_pow2_truthy: "truthy ((y::int) AND 2 ^ n) = bit y n"
  by (simp add: truthy_def and_exp_eq_0_iff_not_bit)

lemma toInt32_small: "0 \<le> m \<Longrightarrow> m < 2 ^ 31 \<Longrightarrow> toInt32 m = m"
  by (rule toInt32_id) auto

lemma js_and_1: "truthy (js_and x 0x01) = bit x 0"
proof -
  have "truthy (toInt32 x AND 2 ^ 0) = bit (toInt32 x) 0" by (rule and_pow2_truthy)
  then show ?thesis by (simp add: js_and_def toInt32_small bit_toInt32)
qed

lemma js_and_04: "truthy (js_and x 0x04) = bit x 2"
proof -
  have "truthy (toInt32 x AND 2 ^ 2) = bit (toInt32 x) 2" by (rule and_pow2_truthy)
  then show ?thesis by (simp add: js_and_def toInt32_small bit_toInt32)
qed

lemma truthy_or: "truthy (a OR b) = (truthy a \<or> truthy b)"
  by (simp add: truthy_def or_eq_0_iff)

lemma js_and_1B: "truthy (js_and x 0x1B) = (bit x 0 \<or> bit x 1 \<or> bit x 3 \<or> bit x 4)"
proof -
  have "(0x1B::int) = 2 ^ 0 OR 2 ^ 1 OR 2 ^ 3 OR 2 ^ 4" by simp
  then have "toInt32 x AND 0x1B =
      (toInt32 x AND 2 ^ 0) OR (toInt32 x AND 2 ^ 1) OR (toInt32 x AND 2 ^ 3) OR (toInt32 x AND 2 ^ 4)"
    by (simp only: bit.conj_disj_distrib)
  then have "truthy (toInt32 x AND 0x1B) =
      (bit (toInt32 x) 0 \<or> bit (toInt32 x) 1 \<or> bit (toInt32 x) 3 \<or> bit (toInt32 x) 4)"
    by (simp only: truthy_or and_pow2_truthy)
  then show ?thesis by (simp add: js_and_def toInt32_small bit_toInt32)
qed

lemma js_and_30: "truthy (js_and x 0x30) = (bit x 4 \<or> bit x 5)"
proof -
  have "(0x30::int) = 2 ^ 4 OR 2 ^ 5" by simp
  then have "toInt32 x AND 0x30 = (toInt32 x AND 2 ^ 4) OR (toInt32 x AND 2 ^ 5)"
    by (simp only: bit.conj_disj_distrib)
  then have "truthy (toInt32 x AND 0x30) = (bit (toInt32 x) 4 \<or> bit (toInt32 x) 5)"
    by (simp only: truthy_or and_pow2_truthy)
  then show ?thesis by (simp add: js_and_def toInt32_small bit_toInt32)
qed

lemma js_and_0: "truthy (js_and x 0) = False"
  by (simp add: truthy_def js_and_def toInt32_def)

section \<open>Facts about the register access layer\<close>

lemma writeRegister_trace:
  "trace (writeRegister T addr v w) =
     trace w @ [DigitalWrite (sdaPin w) 0, SpiWrite (js_and (js_shl addr 1) 0x7E), SpiWrite v,
                DigitalWrite (sdaPin w) 1]"
  by (simp add: writeRegister_def Let_def digitalWritePin_def spiWrite_def)

lemma writeRegister_dev:
  "dev (writeRegister T addr v w) =
     pins_digitalWritePin T (sdaPin w) 1
       (pins_spiWrite T v
         (pins_spiWrite T (js_and (js_shl addr 1) 0x7E)
           (pins_digitalWritePin T (sdaPin w) 0 (dev w))))"
  by (simp add: writeRegister_def Let_def digitalWritePin_def spiWrite_def)

lemma writeRegister_vars [simp]:
  "sdaPin (writeRegister T addr v w) = sdaPin w"
  "rstPin (writeRegister T addr v w) = rstPin w"
  "sckPin (writeRegister T addr v w) = sckPin w"
  "mosiPin (writeRegister T addr v w) = mosiPin w"
  "misoPin (writeRegister T addr v w) = misoPin w"
  "initialized (writeRegister T addr v w) = initialized w"
  by (simp_all add: writeRegister_def Let_def digitalWritePin_def spiWrite_def)

text \<open>The byte that a read of a register clocks back from the device.\<close>

lemma readRegister_value:
  "fst (readRegister T addr w) =
     fst (pins_spiRead T
           (pins_spiWrite T (js_or (js_and (js_shl addr 1) 0x7E) 0x80)
             (pins_digitalWritePin T (sdaPin w) 0 (dev w))))"
  by (simp add: readRegister_def Let_def digitalWritePin_def spiWrite_def spiRead_def
      split: prod.splits)

lemma readRegister_trace:
  "trace (snd (readRegister T addr w)) =
     trace w @ [DigitalWrite (sdaPin w) 0, SpiWrite (js_or (js_and (js_shl addr 1) 0x7E) 0x80),
                SpiRead (fst (readRegister T addr w)), DigitalWrite (sdaPin w) 1]"
  by (simp add: readRegister_def Let_def digitalWritePin_def spiWrite_def spiRead_def
      split: prod.splits)

lemma readRegister_vars [simp]:
  "sdaPin (snd (readRegister T addr w)) = sdaPin w"
  "rstPin (snd (readRegister T addr w)) = rstPin w"
  "sckPin (snd (readRegister T addr w)) = sckPin w"
  "mosiPin (snd (readRegister T addr w)) = mosiPin w"
  "misoPin (snd (readRegister T addr w)) = misoPin w"
  "initialized (snd (readRegister T addr w)) = initialized w"
  by (simp_all add: readRegister_def Let_def digitalWritePin_def spiWrite_def spiRead_def
      split: prod.splits)

section \<open>Register framing\<close>

text \<open>
  Claim C7. For a register address from 0 to 63 and any value, \<open>writeRegister\<close> makes
  exactly four calls of the transport: chip select low, the byte \<open>(addr << 1) & 0x7E\<close>
  (which is twice the address), the value, chip select high. \<open>readRegister\<close> makes
  exactly four as well: chip select low, the byte \<open>((addr << 1) & 0x7E) | 0x80\<close> (twice
  the address plus 128), one read of the bus, chip select high; it returns the byte that
  this read gave.
\<close>

theorem register_framing:
  assumes "0 \<le> addr" and "addr \<le> 63"
  shows "js_and (js_shl addr 1) 0x7E = 2 * addr
       \<and> js_or (js_and (js_shl addr 1) 0x7E) 0x80 = 2 * addr + 128
       \<and> trace (writeRegister T addr v w) =
           trace w @ [DigitalWrite (sdaPin w) 0, SpiWrite (2 * addr), SpiWrite v,
                      DigitalWrite (sdaPin w) 1]
       \<and> trace (snd (readRegister T addr w)) =
           trace w @ [DigitalWrite (sdaPin w) 0, SpiWrite (2 * addr + 128),
                      SpiRead (fst (readRegister T addr w)), DigitalWrite (sdaPin w) 1]
       \<and> fst (readRegister T addr w) =
           fst (pins_spiRead T
                 (pins_spiWrite T (2 * addr + 128)
                   (pins_digitalWritePin T (sdaPin w) 0 (dev w))))"
  using frame_write [OF assms] frame_read [OF assms]
  by (simp only: writeRegister_trace readRegister_trace readRegister_value simp_thms)

theorem register_framing_witness:
  "trace (writeRegister scripted 0x14 0x83 (boot \<lparr>replies = [0x5A], clock = 0, tick = 1\<rparr>)) =
     [DigitalWrite P8 0, SpiWrite 0x28, SpiWrite 0x83, DigitalWrite P8 1]
   \<and> trace (snd (readRegister scripted 0x14 (boot \<lparr>replies = [0x5A], clock = 0, tick = 1\<rparr>))) =
     [DigitalWrite P8 0, SpiWrite 0xA8, SpiRead 0x5A, DigitalWrite P8 1]
   \<and> fst (readRegister scripted 0x14 (boot \<lparr>replies = [0x5A], clock = 0, tick = 1\<rparr>)) = 0x5A"
  using register_framing [of "0x14" scripted "0x83" "boot \<lparr>replies = [0x5A], clock = 0, tick = 1\<rparr>"]
  by (simp add: boot_def scripted_def)

section \<open>The CRC wait loop\<close>

lemma polled_0 [simp]: "polled T reg 0 w = w"
  by (simp add: polled_def)

lemma polled_Suc: "polled T reg (Suc k) w = polled T reg k (snd (readRegister T reg w))"
  by (simp add: polled_def funpow_Suc_right del: funpow.simps)

lemma polled_Suc': "polled T reg (Suc k) w = snd (readRegister T reg (polled T reg k w))"
  by (simp add: polled_def)

lemma seen_0: "seen T reg w 0 = fst (readRegister T reg w)"
  by (simp add: seen_def)

lemma seen_Suc: "seen T reg w (Suc k) = seen T reg (snd (readRegister T reg w)) k"
  by (simp add: seen_def polled_Suc)

lemma find_upt_Suc:
  "find P [0..<Suc n] = (if P 0 then Some 0 else map_option Suc (find (\<lambda>j. P (Suc j)) [0..<n]))"
proof -
  have "[0..<Suc n] = 0 # map Suc [0..<n]"
    by (simp add: upt_conv_Cons map_Suc_upt del: upt_Suc)
  moreover have "find P (map Suc xs) = map_option Suc (find (\<lambda>j. P (Suc j)) xs)" for xs
    by (induction xs) auto
  ultimately show ?thesis by simp
qed

lemma crc_outcome_0: "crc_outcome T 0 w = ([0, 0], w)"
  by (simp add: crc_outcome_def)

lemma crc_outcome_Suc:
  "crc_outcome T (Suc n) w =
     (case readRegister T DivIrqReg w of
        (v, w1) \<Rightarrow>
          if bit v 2 then
            (case readRegister T 0x22 w1 of
               (l, w2) \<Rightarrow>
                 (case readRegister T 0x21 w2 of
                    (h, w3) \<Rightarrow> ([l, h], w3)))
          else crc_outcome T n w1)"
proof -
  obtain v w1 where r: "readRegister T DivIrqReg w = (v, w1)" by force
  show ?thesis
  proof (cases "bit v 2")
    case True
    then show ?thesis
      using r by (simp add: crc_outcome_def find_upt_Suc seen_0 polled_Suc del: upt_Suc)
  next
    case False
    show ?thesis
    proof (cases "find (\<lambda>j. bit (seen T DivIrqReg w1 j) 2) [0..<n]")
      case None
      then show ?thesis
        using r False
        by (simp add: crc_outcome_def find_upt_Suc seen_0 seen_Suc polled_Suc del: upt_Suc)
    next
      case (Some k)
      then show ?thesis
        using r False
        by (simp add: crc_outcome_def find_upt_Suc seen_0 seen_Suc polled_Suc del: upt_Suc)
    qed
  qed
qed

lemma crc_wait_outcome: "i \<le> 255 \<Longrightarrow> crc_wait T i w = crc_outcome T (255 - i) w"
proof (induction T i w rule: crc_wait.induct)
  case (1 T i w)
  show ?case
  proof (cases "i < 255")
    case False
    with 1(2) have "i = 255" by simp
    then show ?thesis by (simp add: crc_outcome_0)
  next
    case True
    then have n: "255 - i = Suc (255 - (i + 1))" by simp
    obtain v w1 where r: "readRegister T DivIrqReg w = (v, w1)" by force
    show ?thesis
    proof (cases "bit v 2")
      case True
      then show ?thesis
        using \<open>i < 255\<close> r
        by (subst crc_wait.simps, subst n, subst crc_outcome_Suc) (simp add: js_and_04 del: crc_wait.simps)
    next
      case False
      have "crc_wait T (i + 1) w1 = crc_outcome T (255 - (i + 1)) w1"
        using 1(1)[OF \<open>i < 255\<close> r[symmetric]] False \<open>i < 255\<close> by (simp add: js_and_04)
      then show ?thesis
        using \<open>i < 255\<close> r False
        by (subst crc_wait.simps, subst n, subst crc_outcome_Suc) (simp add: js_and_04 del: crc_wait.simps)
    qed
  qed
qed


lemma polled_sdaPin [simp]: "sdaPin (polled T reg k w) = sdaPin w"
  by (induction k) (simp_all add: polled_Suc')

lemma polled_trace:
  "trace (polled T reg k w) =
     trace w @ concat (map (\<lambda>j. read_frame (sdaPin w) reg (seen T reg w j)) [0..<k])"
proof (induction k)
  case 0
  show ?case by simp
next
  case (Suc k)
  show ?case
    by (simp add: polled_Suc' readRegister_trace Suc seen_def read_frame_def)
qed

lemma added_append: "trace w' = trace w @ es \<Longrightarrow> added w w' = es"
  by (simp add: added_def)

lemma readRegister_eq:
  assumes "readRegister T addr w = (b, w')"
  shows "trace w' = trace w @ read_frame (sdaPin w) addr b" and "sdaPin w' = sdaPin w"
proof -
  have "b = fst (readRegister T addr w)" "w' = snd (readRegister T addr w)"
    using assms by simp_all
  then show "trace w' = trace w @ read_frame (sdaPin w) addr b" and "sdaPin w' = sdaPin w"
    by (simp_all add: readRegister_trace read_frame_def)
qed

lemma crc_outcome_calls: "added w (snd (crc_outcome T n w)) = crc_calls T n w"
proof (cases "find (\<lambda>j. bit (seen T DivIrqReg w j) 2) [0..<n]")
  case None
  then show ?thesis
    by (intro added_append) (simp add: crc_outcome_def crc_calls_def polled_trace)
next
  case (Some k)
  obtain l w1 where l: "readRegister T 0x22 (polled T DivIrqReg (Suc k) w) = (l, w1)" by force
  obtain h w2 where h: "readRegister T 0x21 w1 = (h, w2)" by force
  have "trace w2 = trace w
          @ concat (map (\<lambda>j. read_frame (sdaPin w) DivIrqReg (seen T DivIrqReg w j)) [0..<Suc k])
          @ read_frame (sdaPin w) 0x22 l @ read_frame (sdaPin w) 0x21 h"
    using readRegister_eq [OF l] readRegister_eq [OF h]
    by (simp add: polled_trace del: upt_Suc)
  then show ?thesis
    using Some l h
    by (intro added_append) (simp add: crc_outcome_def crc_calls_def del: upt_Suc)
qed

text \<open>What the search for the first poll that shows the bit gives.\<close>

lemma find_upt_Some:
  "find P [0..<n] = Some k \<longleftrightarrow> k < n \<and> P k \<and> (\<forall>j<k. \<not> P j)"
  by (auto simp add: find_Some_iff)

lemma find_upt_None: "find P [0..<n] = None \<longleftrightarrow> (\<forall>j<n. \<not> P j)"
  by (auto simp add: find_None_iff)

text \<open>
  Claim C6. For every buffer, \<open>calculateCRC\<close> sets the coprocessor up and then polls the
  divider-interrupt register at most 255 times, with no other call of the transport between
  two polls. At the first poll that shows the CRC-ready bit (0x04) it reads register 0x22 and
  then register 0x21 and returns the two bytes as read, low first. When none of the 255 polls
  shows the bit it returns two zeros, an ordinary value.
\<close>

theorem calculateCRC_polling:
  "calculateCRC T data w = crc_outcome T 255 (crc_setup T data w)
   \<and> added (crc_setup T data w) (snd (calculateCRC T data w)) = crc_calls T 255 (crc_setup T data w)"
  by (simp add: calculateCRC_def crc_wait_outcome crc_outcome_calls del: crc_wait.simps)

text \<open>
  On the device with nothing to say no poll shows the bit: all 255 polls are made, each of four
  transport calls, and the result is two zeros.
\<close>

lemma silent_read:
  assumes "replies (dev w) = []"
  shows "fst (readRegister scripted reg w) = 0"
    and "replies (dev (snd (readRegister scripted reg w))) = []"
  using assms
  by (simp_all add: readRegister_def Let_def spiRead_def spiWrite_def digitalWritePin_def
      scripted_def)

lemma silent_polled:
  assumes "replies (dev w) = []"
  shows "replies (dev (polled scripted reg k w)) = []"
proof (induction k)
  case 0
  show ?case using assms by simp
next
  case (Suc k)
  show ?case using silent_read(2) [OF Suc] by (simp add: polled_Suc')
qed

lemma silent_seen:
  assumes "replies (dev w) = []"
  shows "seen scripted reg w k = 0"
  using silent_read(1) [OF silent_polled [OF assms]] by (simp add: seen_def)

lemma silent_setup: "replies (dev (crc_setup scripted [0x50, 0] silent)) = []"
  by code_simp

theorem calculateCRC_polling_witness:
  "fst (calculateCRC scripted [0x50, 0] silent) = [0, 0]
   \<and> length (added (crc_setup scripted [0x50, 0] silent)
               (snd (calculateCRC scripted [0x50, 0] silent))) = 4 * 255"
proof -
  let ?w0 = "crc_setup scripted [0x50, 0] silent"
  have none: "find (\<lambda>j. bit (seen scripted DivIrqReg ?w0 j) 2) [0..<255] = None"
    by (simp add: find_upt_None silent_seen [OF silent_setup])
  have len: "length (concat (map (\<lambda>j. read_frame (sdaPin ?w0) DivIrqReg
                                 (seen scripted DivIrqReg ?w0 j)) [0..<n])) = 4 * n" for n
    by (induction n) (simp_all add: read_frame_def)
  note inst = calculateCRC_polling [of scripted "[0x50, 0]" silent]
  have "calculateCRC scripted [0x50, 0] silent = crc_outcome scripted 255 ?w0"
    using inst by (rule conjunct1)
  then have a: "fst (calculateCRC scripted [0x50, 0] silent) = [0, 0]"
    using none by (simp add: crc_outcome_def)
  have "added ?w0 (snd (calculateCRC scripted [0x50, 0] silent)) = crc_calls scripted 255 ?w0"
    using inst by (rule conjunct2)
  then have "length (added ?w0 (snd (calculateCRC scripted [0x50, 0] silent))) =
      length (concat (map (\<lambda>j. read_frame (sdaPin ?w0) DivIrqReg
                                 (seen scripted DivIrqReg ?w0 j)) [0..<255]))"
    using none by (simp add: crc_calls_def)
  then have b: "length (added ?w0 (snd (calculateCRC scripted [0x50, 0] silent))) = 4 * 255"
    by (simp only: len)
  from a b show ?thesis by (rule conjI)
qed

text \<open>The CRC is ready at the second poll: the two result bytes come back as the device gave them.\<close>

lemma calculateCRC_ready_example:
  "fst (calculateCRC scripted [0x50, 0]
         (boot \<lparr>replies = [0, 0, 4, 0x63, 0x8C], clock = 0, tick = 1\<rparr>)) = [0x63, 0x8C]"
  by (simp add: calculateCRC_def crc_setup_def reg_defs cmd_defs boot_def scripted_def
      writeRegister_def readRegister_def setBitMask_def digitalWritePin_def spiWrite_def
      spiRead_def js_and_def js_or_def js_shl_def toInt32_def truthy_def Let_def)

section \<open>Facts about the command engine\<close>

lemma writeRegister_added:
  "trace (writeRegister T addr v w) = trace w @ write_frame (sdaPin w) addr v"
  by (simp add: writeRegister_trace write_frame_def)

lemma clearBitMask_trace:
  "trace (clearBitMask T reg m w) =
     trace w @ read_frame (sdaPin w) reg (fst (readRegister T reg w))
             @ write_frame (sdaPin w) reg (js_and (fst (readRegister T reg w)) (js_not m))"
  by (simp add: clearBitMask_def writeRegister_added readRegister_trace read_frame_def
      case_prod_beta)

lemma setBitMask_trace:
  "trace (setBitMask T reg m w) =
     trace w @ read_frame (sdaPin w) reg (fst (readRegister T reg w))
             @ write_frame (sdaPin w) reg (js_or (fst (readRegister T reg w)) m)"
  by (simp add: setBitMask_def writeRegister_added readRegister_trace read_frame_def
      case_prod_beta)

lemma clearBitMask_vars [simp]:
  "sdaPin (clearBitMask T reg m w) = sdaPin w"
  "rstPin (clearBitMask T reg m w) = rstPin w"
  "sckPin (clearBitMask T reg m w) = sckPin w"
  "mosiPin (clearBitMask T reg m w) = mosiPin w"
  "misoPin (clearBitMask T reg m w) = misoPin w"
  "initialized (clearBitMask T reg m w) = initialized w"
  by (simp_all add: clearBitMask_def case_prod_beta)

lemma setBitMask_vars [simp]:
  "sdaPin (setBitMask T reg m w) = sdaPin w"
  "rstPin (setBitMask T reg m w) = rstPin w"
  "sckPin (setBitMask T reg m w) = sckPin w"
  "mosiPin (setBitMask T reg m w) = mosiPin w"
  "misoPin (setBitMask T reg m w) = misoPin w"
  "initialized (setBitMask T reg m w) = initialized w"
  by (simp_all add: setBitMask_def case_prod_beta)

lemma collect_status: "status (fst (collect T command w)) = (\<not> failed T w)"
  by (simp add: collect_def failed_def error_read_def irq_read_def Let_def js_and_1 js_and_1B
      case_prod_beta)

lemma collect_failure:
  "\<not> status (fst (collect T command w)) \<Longrightarrow>
   fst (collect T command w) = \<lparr>status = False, backData = [], backBits = 0\<rparr>"
  by (simp add: collect_def Let_def case_prod_beta split: if_splits)

lemma read_fifo_trace: "\<exists>r. trace (snd (read_fifo T k w)) = trace w @ r"
proof (induction k arbitrary: w)
  case 0
  show ?case by simp
next
  case (Suc k)
  obtain r where "trace (snd (read_fifo T k (snd (readRegister T FIFODataReg w)))) =
      trace (snd (readRegister T FIFODataReg w)) @ r"
    using Suc by blast
  then show ?case
    by (simp add: case_prod_beta readRegister_trace)
qed

lemma collect_trace_prefix:
  "\<exists>rest. trace (snd (collect T command w)) =
     trace (clearBitMask T BitFramingReg 0x80 w)
       @ read_frame (sdaPin w) ErrorReg (error_read T w)
       @ read_frame (sdaPin w) CommIrqReg (irq_read T w) @ rest"
proof -
  let ?w1 = "clearBitMask T BitFramingReg 0x80 w"
  obtain e w2 where e: "readRegister T ErrorReg ?w1 = (e, w2)" by force
  obtain i w3 where i: "readRegister T CommIrqReg w2 = (i, w3)" by force
  have t3: "trace w3 = trace ?w1 @ read_frame (sdaPin w) ErrorReg e @ read_frame (sdaPin w) CommIrqReg i"
    using readRegister_eq[OF e] readRegister_eq[OF i] by simp
  have ei: "error_read T w = e" "irq_read T w = i"
    using e i by (simp_all add: error_read_def irq_read_def)
  show ?thesis
  proof (cases "truthy (js_and i 0x01) \<or> truthy (js_and e 0x1B) \<or> command \<noteq> PCD_TRANSCEIVE")
    case True
    then have "snd (collect T command w) = w3"
      using e i by (auto simp add: collect_def Let_def)
    then show ?thesis using t3 ei by simp
  next
    case False
    obtain l w4 where l: "readRegister T FIFOLevelReg w3 = (l, w4)" by force
    obtain bd w5 where bd: "read_fifo T (nat l) w4 = (bd, w5)" by force
    obtain c w6 where c: "readRegister T ControlReg w5 = (c, w6)" by force
    have "snd (collect T command w) = w6"
      using False e i l bd c by (simp add: collect_def Let_def)
    moreover obtain r where "trace w5 = trace w4 @ r"
      using read_fifo_trace[of T "nat l" w4] bd by auto
    ultimately have "trace (snd (collect T command w)) = trace w3 @ (read_frame (sdaPin w3) FIFOLevelReg l @ r @ read_frame (sdaPin w5) ControlReg c)"
      using readRegister_eq[OF l] readRegister_eq[OF c] by simp
    then show ?thesis using t3 ei by simp
  qed
qed

lemma same_vars_refl [simp]: "same_vars w w"
  by (simp add: same_vars_def)

lemma same_vars_trans: "same_vars w w1 \<Longrightarrow> same_vars w1 w2 \<Longrightarrow> same_vars w w2"
  by (simp add: same_vars_def)

lemma same_vars_writeRegister [simp]: "same_vars w (writeRegister T addr v w)"
  by (simp add: same_vars_def)

lemma same_vars_readRegister [simp]: "same_vars w (snd (readRegister T addr w))"
  by (simp add: same_vars_def)

lemma same_vars_setBitMask [simp]: "same_vars w (setBitMask T reg m w)"
  by (simp add: same_vars_def)

lemma same_vars_clearBitMask [simp]: "same_vars w (clearBitMask T reg m w)"
  by (simp add: same_vars_def)

lemma same_vars_runningTime [simp]: "same_vars w (snd (runningTime T w))"
  by (simp add: same_vars_def runningTime_def case_prod_beta)

lemma same_vars_write_fifo [simp]: "same_vars w (write_fifo T bs w)"
proof (induction bs arbitrary: w)
  case Nil
  show ?case by simp
next
  case (Cons b bs)
  show ?case
    using same_vars_trans [OF same_vars_writeRegister Cons] by simp
qed

lemma same_vars_arm [simp]: "same_vars w (arm T command sendData w)"
proof -
  let ?w1 = "writeRegister T CommIEnReg (js_or (fst (irq_masks command)) 0x80) w"
  let ?w2 = "clearBitMask T CommIrqReg 0x80 ?w1"
  let ?w3 = "setBitMask T FIFOLevelReg 0x80 ?w2"
  let ?w4 = "writeRegister T CommandReg PCD_IDLE ?w3"
  let ?w5 = "write_fifo T sendData ?w4"
  let ?w6 = "writeRegister T CommandReg command ?w5"
  have "same_vars w ?w1" by (rule same_vars_writeRegister)
  then have "same_vars w ?w2" by (rule same_vars_trans) (rule same_vars_clearBitMask)
  then have "same_vars w ?w3" by (rule same_vars_trans) (rule same_vars_setBitMask)
  then have "same_vars w ?w4" by (rule same_vars_trans) (rule same_vars_writeRegister)
  then have "same_vars w ?w5" by (rule same_vars_trans) (rule same_vars_write_fifo)
  then have 6: "same_vars w ?w6" by (rule same_vars_trans) (rule same_vars_writeRegister)
  then have 7: "same_vars w (setBitMask T BitFramingReg 0x80 ?w6)"
    by (rule same_vars_trans) (rule same_vars_setBitMask)
  show ?thesis
    unfolding arm_def Let_def using 6 7 by (simp only: if_split) simp
qed

lemma same_vars_wait_entry [simp]: "same_vars w (snd (wait_entry T command sendData w))"
  using same_vars_trans [OF same_vars_arm same_vars_runningTime]
  by (simp add: wait_entry_def)

lemma same_vars_wait_for_data:
  assumes "wait_for_data T0 waitIRq0 start0 timeoutMs0 w0 = Some w0'"
  shows "same_vars w0 w0'"
proof (rule wait_for_data.raw_induct
    [where P = "\<lambda>T waitIRq start timeoutMs w w'. same_vars w w'", OF _ assms])
  fix f :: "'a transport \<Rightarrow> int \<Rightarrow> int \<Rightarrow> int \<Rightarrow> 'a chip \<Rightarrow> 'a chip option"
  fix T waitIRq start timeoutMs w w'
  assume IH: "\<And>T waitIRq start timeoutMs w w'.
                f T waitIRq start timeoutMs w = Some w' \<Longrightarrow> same_vars w w'"
  assume step: "(case readRegister T CommIrqReg w of
        (n, w1) \<Rightarrow>
          if truthy (js_and n waitIRq) then Some w1
          else if truthy (js_and n 0x01) then Some w1
          else (case runningTime T w1 of
                  (now, w2) \<Rightarrow>
                    if now - start > timeoutMs then Some w2
                    else f T waitIRq start timeoutMs w2)) = Some w'"
  let ?n = "fst (readRegister T CommIrqReg w)"
  let ?w1 = "snd (readRegister T CommIrqReg w)"
  let ?now = "fst (runningTime T ?w1)"
  let ?w2 = "snd (runningTime T ?w1)"
  have a: "same_vars w ?w1" by simp
  have b: "same_vars w ?w2" using same_vars_trans [OF a same_vars_runningTime] .
  have body: "(if truthy (js_and ?n waitIRq) then Some ?w1
               else if truthy (js_and ?n 0x01) then Some ?w1
               else if ?now - start > timeoutMs then Some ?w2
               else f T waitIRq start timeoutMs ?w2) = Some w'"
    using step by (simp add: case_prod_beta cong: if_cong)
  show "same_vars w w'"
  proof (cases "truthy (js_and ?n waitIRq)")
    case True
    then have "w' = ?w1" using body by simp
    then show ?thesis using a by simp
  next
    case c1: False
    show ?thesis
    proof (cases "truthy (js_and ?n 0x01)")
      case True
      then have "w' = ?w1" using body c1 by simp
      then show ?thesis using a by simp
    next
      case c2: False
      show ?thesis
      proof (cases "?now - start > timeoutMs")
        case True
        then have "w' = ?w2" using body c1 c2 by simp
        then show ?thesis using b by simp
      next
        case False
        then have rec: "f T waitIRq start timeoutMs ?w2 = Some w'" using body c1 c2 by simp
        have "same_vars ?w2 w'" using IH [OF rec] .
        then show ?thesis using b by (blast intro: same_vars_trans)
      qed
    qed
  qed
qed

section \<open>Validation after the wait loop\<close>

text \<open>
  Claim C2. Whenever \<open>communicateWithPICC\<close> returns, the wait loop has left in some state;
  from there the engine clears the start-send bit, reads the error register and then the
  communication-interrupt register. The returned status is failure exactly when the
  timer-interrupt bit (bit 0, 0x01) of the latter or one of the bits 0, 1, 3, 4 (mask 0x1B) of
  the former is set, whatever the wait flag shows; and a failed result has no data and no
  bit count.
\<close>

theorem communicate_validation:
  assumes "communicateWithPICC T command sendData timeoutMs w = Some (res, w')"
  shows "\<exists>w3 rest.
           wait_for_data T (snd (irq_masks command)) (fst (wait_entry T command sendData w))
             timeoutMs (snd (wait_entry T command sendData w)) = Some w3
         \<and> trace w' = trace (clearBitMask T BitFramingReg 0x80 w3)
                        @ read_frame (sdaPin w) ErrorReg (error_read T w3)
                        @ read_frame (sdaPin w) CommIrqReg (irq_read T w3) @ rest
         \<and> (\<not> status res) =
             (bit (irq_read T w3) 0 \<or> bit (error_read T w3) 0 \<or> bit (error_read T w3) 1
              \<or> bit (error_read T w3) 3 \<or> bit (error_read T w3) 4)
         \<and> (\<not> status res \<longrightarrow> res = \<lparr>status = False, backData = [], backBits = 0\<rparr>)"
proof -
  let ?e = "wait_entry T command sendData w"
  obtain w3 where
    w3: "wait_for_data T (snd (irq_masks command)) (fst ?e) timeoutMs (snd ?e) = Some w3"
    and out: "collect T command w3 = (res, w')"
    using assms
    by (auto simp add: communicateWithPICC_def wait_entry_def Let_def case_prod_beta
        split: option.splits)
  have "same_vars w w3"
    using same_vars_trans [OF same_vars_wait_entry same_vars_wait_for_data [OF w3]] .
  then have pin: "sdaPin w3 = sdaPin w" by (simp add: same_vars_def)
  obtain rest where "trace (snd (collect T command w3)) =
     trace (clearBitMask T BitFramingReg 0x80 w3)
       @ read_frame (sdaPin w3) ErrorReg (error_read T w3)
       @ read_frame (sdaPin w3) CommIrqReg (irq_read T w3) @ rest"
    using collect_trace_prefix by blast
  moreover have "(\<not> status res) = failed T w3"
    using collect_status [of T command w3] out by simp
  moreover have "\<not> status res \<longrightarrow> res = \<lparr>status = False, backData = [], backBits = 0\<rparr>"
    using collect_failure [of T command w3] out by simp
  ultimately show ?thesis
    using w3 out pin unfolding failed_def by auto
qed

theorem communicate_validation_witness:
  "communicateWithPICC scripted PCD_TRANSCEIVE [PICC_REQIDL] 200 noisy_card =
     Some (\<lparr>status = False, backData = [], backBits = 0\<rparr>,
           snd (the (communicateWithPICC scripted PCD_TRANSCEIVE [PICC_REQIDL] 200 noisy_card)))
   \<and> (\<exists>w3. wait_for_data scripted (snd (irq_masks PCD_TRANSCEIVE))
               (fst (wait_entry scripted PCD_TRANSCEIVE [PICC_REQIDL] noisy_card)) 200
               (snd (wait_entry scripted PCD_TRANSCEIVE [PICC_REQIDL] noisy_card)) = Some w3
           \<and> irq_read scripted w3 = 0x30 \<and> error_read scripted w3 = 0x08
           \<and> bit (error_read scripted w3) 3)"
proof -
  let ?out = "communicateWithPICC scripted PCD_TRANSCEIVE [PICC_REQIDL] 200 noisy_card"
  let ?e = "wait_entry scripted PCD_TRANSCEIVE [PICC_REQIDL] noisy_card"
  let ?w3 = "the (wait_for_data scripted (snd (irq_masks PCD_TRANSCEIVE)) (fst ?e) 200 (snd ?e))"
  have run: "?out = Some (\<lparr>status = False, backData = [], backBits = 0\<rparr>, snd (the ?out))"
    by code_simp
  have rd: "irq_read scripted ?w3 = 0x30" "error_read scripted ?w3 = 0x08"
    by code_simp+
  from communicate_validation [OF run] obtain w3 where
    w3: "wait_for_data scripted (snd (irq_masks PCD_TRANSCEIVE)) (fst ?e) 200 (snd ?e) = Some w3"
    and "(\<not> status \<lparr>status = False, backData = [], backBits = 0\<rparr>) =
             (bit (irq_read scripted w3) 0 \<or> bit (error_read scripted w3) 0
              \<or> bit (error_read scripted w3) 1 \<or> bit (error_read scripted w3) 3
              \<or> bit (error_read scripted w3) 4)"
    by blast
  have "?w3 = w3" using w3 by simp
  then have "irq_read scripted w3 = 0x30" "error_read scripted w3 = 0x08"
    using rd by simp_all
  moreover have "bit (0x08 :: int) 3" by simp
  ultimately show ?thesis using run w3 by auto
qed

section \<open>Leaving the wait loop, or not\<close>

lemma wait_for_data_unfold:
  "wait_for_data T waitIRq start timeoutMs w =
     (if truthy (js_and (fst (readRegister T CommIrqReg w)) waitIRq)
        then Some (snd (readRegister T CommIrqReg w))
      else if bit (fst (readRegister T CommIrqReg w)) 0
        then Some (snd (readRegister T CommIrqReg w))
      else if time_read T w - start > timeoutMs then Some (spin T w)
      else wait_for_data T waitIRq start timeoutMs (spin T w))"
  by (subst wait_for_data.simps)
     (simp add: case_prod_beta spin_def time_read_def js_and_1 cong: if_cong)

text \<open>
  The wait loop returns as soon as some turn reads a time that exceeds the timeout: given such
  a turn, it does not run forever.
\<close>

lemma wait_for_data_returns:
  assumes "time_read T ((spin T ^^ k) w) - start > timeoutMs"
  shows "\<exists>w'. wait_for_data T waitIRq start timeoutMs w = Some w'"
  using assms
proof (induction k arbitrary: w)
  case 0
  then show ?case
    by (subst wait_for_data_unfold) simp
next
  case (Suc k)
  have "time_read T ((spin T ^^ k) (spin T w)) - start > timeoutMs"
    using Suc.prems by (simp add: funpow_swap1)
  then obtain w' where "wait_for_data T waitIRq start timeoutMs (spin T w) = Some w'"
    using Suc.IH by blast
  then show ?case
    by (subst wait_for_data_unfold) simp
qed

text \<open>
  The wait loop never returns from a state in a set that every turn stays in, shows no flag
  in, and reads no time beyond the timeout in.
\<close>

lemma wait_for_data_hangs:
  assumes start: "I w0"
    and keep: "\<And>w. I w \<Longrightarrow> I (spin T0 w)"
    and no_wait: "\<And>w. I w \<Longrightarrow> \<not> truthy (js_and (fst (readRegister T0 CommIrqReg w)) m0)"
    and no_timer: "\<And>w. I w \<Longrightarrow> \<not> bit (fst (readRegister T0 CommIrqReg w)) 0"
    and no_time: "\<And>w. I w \<Longrightarrow> time_read T0 w - s0 \<le> t0"
  shows "wait_for_data T0 m0 s0 t0 w0 = None"
proof (rule ccontr)
  assume "wait_for_data T0 m0 s0 t0 w0 \<noteq> None"
  then obtain y where y: "wait_for_data T0 m0 s0 t0 w0 = Some y" by blast
  have "T0 = T0 \<and> m0 = m0 \<and> s0 = s0 \<and> t0 = t0 \<longrightarrow> \<not> I w0"
  proof (rule wait_for_data.raw_induct
      [where P = "\<lambda>T waitIRq start timeoutMs w w'.
                    T = T0 \<and> waitIRq = m0 \<and> start = s0 \<and> timeoutMs = t0 \<longrightarrow> \<not> I w", OF _ y])
    fix f :: "'a transport \<Rightarrow> int \<Rightarrow> int \<Rightarrow> int \<Rightarrow> 'a chip \<Rightarrow> 'a chip option"
    fix T waitIRq start timeoutMs w w'
    assume IH: "\<And>T waitIRq start timeoutMs w w'.
                  f T waitIRq start timeoutMs w = Some w' \<Longrightarrow>
                  T = T0 \<and> waitIRq = m0 \<and> start = s0 \<and> timeoutMs = t0 \<longrightarrow> \<not> I w"
    assume step: "(case readRegister T CommIrqReg w of
        (n, w1) \<Rightarrow>
          if truthy (js_and n waitIRq) then Some w1
          else if truthy (js_and n 0x01) then Some w1
          else (case runningTime T w1 of
                  (now, w2) \<Rightarrow>
                    if now - start > timeoutMs then Some w2
                    else f T waitIRq start timeoutMs w2)) = Some w'"
    show "T = T0 \<and> waitIRq = m0 \<and> start = s0 \<and> timeoutMs = t0 \<longrightarrow> \<not> I w"
    proof (intro impI notI)
      assume eq: "T = T0 \<and> waitIRq = m0 \<and> start = s0 \<and> timeoutMs = t0" and i: "I w"
      have "f T0 m0 s0 t0 (spin T0 w) = Some w'"
        using step eq no_wait [OF i] no_timer [OF i] no_time [OF i]
        by (simp add: case_prod_beta spin_def time_read_def js_and_1)
      then have "\<not> I (spin T0 w)" using IH by blast
      then show False using keep [OF i] by simp
    qed
  qed
  then show False using start by simp
qed

text \<open>
  With a clock that stands still and no flag ever shown, an IDLE command never returns: the
  zero wait mask does not let the engine through.
\<close>

lemma idle_hangs_example:
  "communicateWithPICC scripted PCD_IDLE [] 200 (boot \<lparr>replies = [], clock = 0, tick = 0\<rparr>) = None"
proof -
  let ?I = "\<lambda>w. replies (dev w) = [] \<and> clock (dev w) = 0 \<and> tick (dev w) = 0"
  let ?e = "wait_entry scripted PCD_IDLE [] (boot \<lparr>replies = [], clock = 0, tick = 0\<rparr>)"
  have e: "fst ?e = 0" "?I (snd ?e)" by code_simp+
  have rd: "fst (readRegister scripted CommIrqReg w) = 0" if "?I w" for w :: "script chip"
    using that
    by (simp add: readRegister_def Let_def spiRead_def spiWrite_def digitalWritePin_def
        scripted_def)
  have keep: "?I (spin scripted w)" if "?I w" for w :: "script chip"
    using that
    by (simp add: spin_def runningTime_def readRegister_def Let_def spiRead_def spiWrite_def
        digitalWritePin_def scripted_def)
  have tm: "time_read scripted w = 0" if "?I w" for w :: "script chip"
    using that
    by (simp add: time_read_def runningTime_def readRegister_def Let_def spiRead_def
        spiWrite_def digitalWritePin_def scripted_def)
  have "wait_for_data scripted (snd (irq_masks PCD_IDLE)) 0 200 (snd ?e) = None"
  proof (rule wait_for_data_hangs [where I = ?I])
    show "?I (snd ?e)" by (rule e)
  qed (simp_all add: keep rd tm truthy_def js_and_def toInt32_def)
  then show ?thesis
    using e(1) by (simp add: communicateWithPICC_def wait_entry_def Let_def case_prod_beta)
qed

text \<open>Hence an exchange returns whenever some turn of its wait loop reads such a time.\<close>

lemma communicate_returns:
  assumes "time_read T ((spin T ^^ k) (snd (wait_entry T command sendData w)))
             - fst (wait_entry T command sendData w) > timeoutMs"
  shows "\<exists>res w'. communicateWithPICC T command sendData timeoutMs w = Some (res, w')"
proof -
  obtain w3 where
    "wait_for_data T (snd (irq_masks command)) (fst (wait_entry T command sendData w)) timeoutMs
       (snd (wait_entry T command sendData w)) = Some w3"
    using wait_for_data_returns [OF assms] by blast
  then have "communicateWithPICC T command sendData timeoutMs w = Some (collect T command w3)"
    by (simp add: communicateWithPICC_def wait_entry_def Let_def case_prod_beta)
  then show ?thesis by (cases "collect T command w3") auto
qed

section \<open>The software timeout\<close>

text \<open>
  On a transport whose communication-interrupt register never shows the timer flag and whose
  error register never shows a bit of mask 0x1B, an exchange that returns always reports
  success, however the wait loop was left: the elapsed time is looked at only to leave the
  loop.
\<close>

lemma timeout_never_fails:
  assumes "communicateWithPICC T command sendData timeoutMs w = Some (res, w')"
    and "\<And>u. \<not> bit (fst (readRegister T CommIrqReg u)) 0"
    and "\<And>u. \<not> truthy (js_and (fst (readRegister T ErrorReg u)) 0x1B)"
  shows "status res"
proof -
  obtain w3 where out: "collect T command w3 = (res, w')"
    using assms(1)
    by (auto simp add: communicateWithPICC_def Let_def case_prod_beta split: option.splits)
  have "\<not> failed T w3"
    using assms(2) [of "snd (readRegister T ErrorReg (clearBitMask T BitFramingReg 0x80 w3))"]
      assms(3) [of "clearBitMask T BitFramingReg 0x80 w3"]
    by (simp add: failed_def irq_read_def error_read_def js_and_1B)
  then show ?thesis
    using collect_status [of T command w3] out by simp
qed

text \<open>
  Claim C1 says that a TRANSCEIVE exchange on a transport that never shows the wait flag nor
  the timer flag returns failure once the elapsed time exceeds the timeout. Run on such a
  transport, whose clock moves on by 100 at every reading, with a timeout of 50: the exchange
  leaves its wait loop at the first reading of the clock after the start (it does not hang),
  and it returns success with no data.
\<close>

theorem timeout_returns_success:
  "map_option fst
     (communicateWithPICC scripted PCD_TRANSCEIVE [PICC_REQIDL] 50
       (boot \<lparr>replies = [], clock = 0, tick = 100\<rparr>)) =
     Some \<lparr>status = True, backData = [], backBits = 0\<rparr>
   \<and> map_option (time_readings \<circ> trace \<circ> snd)
     (communicateWithPICC scripted PCD_TRANSCEIVE [PICC_REQIDL] 50
       (boot \<lparr>replies = [], clock = 0, tick = 100\<rparr>)) = Some [0, 100]"
  by code_simp

section \<open>Commands other than TRANSCEIVE\<close>

text \<open>
  Claim C3 says that with the zero wait mask the wait step does not wait for a flag or for the
  timeout. On a transport that shows no flag and whose clock moves on by 1 at every reading,
  an IDLE command with a timeout of 3 does not leave the loop at its first poll: it reads the
  clock until the elapsed time, 4, exceeds the timeout.
\<close>

theorem idle_waits_counterexample:
  "PCD_IDLE \<noteq> PCD_TRANSCEIVE
   \<and> wait_for_data scripted (snd (irq_masks PCD_IDLE))
        (fst (wait_entry scripted PCD_IDLE [] (boot \<lparr>replies = [], clock = 0, tick = 1\<rparr>))) 3
        (snd (wait_entry scripted PCD_IDLE [] (boot \<lparr>replies = [], clock = 0, tick = 1\<rparr>)))
      \<noteq> Some (snd (readRegister scripted CommIrqReg
                  (snd (wait_entry scripted PCD_IDLE [] (boot \<lparr>replies = [], clock = 0, tick = 1\<rparr>)))))
   \<and> map_option (time_readings \<circ> trace \<circ> snd)
        (communicateWithPICC scripted PCD_IDLE [] 3 (boot \<lparr>replies = [], clock = 0, tick = 1\<rparr>))
      = Some [0, 1, 2, 3, 4]"
  by code_simp

text \<open>
  Claim C3, amended. For every command other than TRANSCEIVE the interrupt-enable mask is 0x12
  and the wait mask is zero. With the zero wait mask the wait flag can never end the wait: the
  loop polls the communication-interrupt register and leaves only when the timer-interrupt bit
  is set or when the elapsed time exceeds the timeout; otherwise it polls again.
\<close>

theorem other_commands_wait:
  assumes "command \<noteq> PCD_TRANSCEIVE"
  shows "irq_masks command = (0x12, 0x00)
       \<and> wait_for_data T (snd (irq_masks command)) start timeoutMs w =
           (case readRegister T CommIrqReg w of
              (n, w1) \<Rightarrow>
                if bit n 0 then Some w1
                else (case runningTime T w1 of
                        (now, w2) \<Rightarrow>
                          if now - start > timeoutMs then Some w2
                          else wait_for_data T (snd (irq_masks command)) start timeoutMs w2))"
proof -
  have m: "irq_masks command = (0x12, 0x00)"
    using assms by (simp add: irq_masks_def)
  have "wait_for_data T 0 start timeoutMs w =
           (case readRegister T CommIrqReg w of
              (n, w1) \<Rightarrow>
                if bit n 0 then Some w1
                else (case runningTime T w1 of
                        (now, w2) \<Rightarrow>
                          if now - start > timeoutMs then Some w2
                          else wait_for_data T 0 start timeoutMs w2))"
    by (subst wait_for_data.simps) (simp add: js_and_0 js_and_1 case_prod_beta cong: if_cong)
  then show ?thesis unfolding m snd_conv by (rule conjI [OF refl])
qed

theorem other_commands_wait_witness:
  "PCD_IDLE \<noteq> PCD_TRANSCEIVE
   \<and> irq_masks PCD_IDLE = (0x12, 0x00)
   \<and> wait_for_data scripted (snd (irq_masks PCD_IDLE)) 0 3
        (boot \<lparr>replies = [], clock = 0, tick = 1\<rparr>) =
       (case readRegister scripted CommIrqReg (boot \<lparr>replies = [], clock = 0, tick = 1\<rparr>) of
          (n, w1) \<Rightarrow>
            if bit n 0 then Some w1
            else (case runningTime scripted w1 of
                    (now, w2) \<Rightarrow>
                      if now - 0 > 3 then Some w2
                      else wait_for_data scripted (snd (irq_masks PCD_IDLE)) 0 3 w2))"
proof -
  have ne: "PCD_IDLE \<noteq> PCD_TRANSCEIVE" by (simp add: PCD_IDLE_def PCD_TRANSCEIVE_def)
  from other_commands_wait [OF ne, of scripted 0 3 "boot \<lparr>replies = [], clock = 0, tick = 1\<rparr>"] ne
  show ?thesis by blast
qed

section \<open>The display string of an identifier\<close>

lemma js_and_FF:
  assumes "0 \<le> x" "x \<le> 255"
  shows "js_and x 0xFF = x"
proof -
  have a: "toInt32 x = x" using assms by (intro toInt32_id) auto
  have b: "toInt32 255 = 255" by (intro toInt32_id) auto
  have "take_bit 8 x = x" using assms by (simp add: take_bit_int_eq_self)
  moreover have "(255::int) = mask 8" by (simp add: mask_eq_exp_minus_1)
  ultimately have "x AND 255 = x" by (simp add: take_bit_eq_mask)
  then show ?thesis unfolding js_and_def a b .
qed

lemma toString16_byte:
  assumes "n < 256"
  shows "toString16 n =
     (if n < 16 then [hexDigit n] else [hexDigit (n div 16), hexDigit (n mod 16)])"
proof (cases "n < 16")
  case True
  then show ?thesis by simp
next
  case False
  have "n div 16 < 16" using assms by simp
  then have "toString16 (n div 16) = [hexDigit (n div 16)]" by simp
  then show ?thesis using False by (subst toString16.simps) simp
qed

lemma hexDigit_0: "hexDigit 0 = CHR ''0''"
  by (simp add: hexDigit_def)

lemma hexByte_byte:
  assumes "0 \<le> x" "x \<le> 255"
  shows "hexByte x = [hexDigit (nat x div 16), hexDigit (nat x mod 16)]"
proof -
  have n: "nat x < 256" using assms by simp
  show ?thesis
    using toString16_byte [OF n]
    by (simp add: hexByte_def js_and_FF [OF assms] Let_def hexDigit_0 del: toString16.simps)
qed

lemma digit_cases:
  assumes "d < (16::nat)"
  shows "d = 0 \<or> d = 1 \<or> d = 2 \<or> d = 3 \<or> d = 4 \<or> d = 5 \<or> d = 6 \<or> d = 7
       \<or> d = 8 \<or> d = 9 \<or> d = 10 \<or> d = 11 \<or> d = 12 \<or> d = 13 \<or> d = 14 \<or> d = 15"
  using assms by arith

lemma hexValue_digit:
  assumes "d < 16"
  shows "hexValue (toUpperCaseChar (hexDigit d)) = d"
  using digit_cases [OF assms]
  by (elim disjE; hypsubst) code_simp+

lemma unhex_byte:
  assumes "0 \<le> x" "x \<le> 255"
  shows "toUpperCase (hexByte x) =
           [toUpperCaseChar (hexDigit (nat x div 16)), toUpperCaseChar (hexDigit (nat x mod 16))]"
    and "int (16 * hexValue (toUpperCaseChar (hexDigit (nat x div 16)))
              + hexValue (toUpperCaseChar (hexDigit (nat x mod 16)))) = x"
proof -
  show "toUpperCase (hexByte x) =
           [toUpperCaseChar (hexDigit (nat x div 16)), toUpperCaseChar (hexDigit (nat x mod 16))]"
    by (simp add: hexByte_byte [OF assms] toUpperCase_def)
  have "nat x div 16 < 16" "nat x mod 16 < 16" using assms by simp_all
  then show "int (16 * hexValue (toUpperCaseChar (hexDigit (nat x div 16)))
              + hexValue (toUpperCaseChar (hexDigit (nat x mod 16)))) = x"
    using assms by (simp add: hexValue_digit)
qed

lemma colon_upper: "toUpperCaseChar (CHR '':'') = CHR '':''"
  by code_simp

text \<open>The display string of four bytes gives these four bytes back.\<close>

lemma unhex_toHexString:
  assumes "0 \<le> a" "a \<le> 255" "0 \<le> b" "b \<le> 255" "0 \<le> c" "c \<le> 255" "0 \<le> d" "d \<le> 255"
  shows "unhex (toHexString [a, b, c, d]) = [a, b, c, d]"
  using unhex_byte [of a] unhex_byte [of b] unhex_byte [of c] unhex_byte [of d] assms
  by (simp add: toHexString_def toUpperCase_def colon_upper hexByte_byte)

section \<open>Reading the identifier\<close>

text \<open>
  Claim C4. When the chip is initialised, the request exchange succeeds with some data and the
  anticollision exchange succeeds with at least five bytes, \<open>readUID\<close> takes the first
  five, forms the exclusive-or of the first four and compares it with the fifth, and then
  returns the first four bytes (as their display string) whatever the fifth byte is: the
  result of the comparison is not used.
\<close>

theorem readUID_ignores_checksum:
  assumes "initialized w"
    and "request_exchange T w = Some (res, w2)"
    and "status res" and "backData res \<noteq> []"
    and "anticoll_exchange T w2 = Some (res2, w4)"
    and "status res2" and "backData res2 = a # b # c # d # bcc # rest"
  shows "readUID T w = Some (toHexString [a, b, c, d], w4)"
  using assms
  by (simp add: readUID_def request_exchange_def anticoll_exchange_def Let_def)

theorem readUID_ignores_checksum_witness:
  "map_option fst (readUID scripted (card 0x08)) = Some ''12:34:56:78''
   \<and> map_option fst (readUID scripted (card 0x5A)) = Some ''12:34:56:78''
   \<and> fold (\<lambda>b acc. js_xor acc b) [0x12, 0x34, 0x56, 0x78] 0 = 0x08"
proof -
  have hex: "toHexString [0x12, 0x34, 0x56, 0x78] = ''12:34:56:78''"
    by code_simp
  have run: "map_option fst (readUID scripted (card bcc)) = Some ''12:34:56:78''"
    if "bcc = 0x08 \<or> bcc = 0x5A" for bcc
  proof -
    let ?w2 = "snd (the (request_exchange scripted (card bcc)))"
    let ?w4 = "snd (the (anticoll_exchange scripted ?w2))"
    have i: "initialized (card bcc)"
      by (simp add: card_def)
    have r1: "request_exchange scripted (card bcc) =
        Some (\<lparr>status = True, backData = [0x04, 0x00], backBits = 0\<rparr>, ?w2)"
      using that by (elim disjE; hypsubst) code_simp+
    have r2: "anticoll_exchange scripted ?w2 =
        Some (\<lparr>status = True, backData = [0x12, 0x34, 0x56, 0x78, bcc], backBits = 0\<rparr>, ?w4)"
      using that by (elim disjE; hypsubst) code_simp+
    from readUID_ignores_checksum [OF i r1 _ _ r2, of "0x12" "0x34" "0x56" "0x78" bcc "[]"]
    show ?thesis by (simp add: hex)
  qed
  have x: "fold (\<lambda>b acc. js_xor acc b) [0x12, 0x34, 0x56, 0x78] 0 = 0x08"
    by code_simp
  from run [of "0x08"] run [of "0x5A"] x show ?thesis by simp
qed

text \<open>
  Claim C5. On an initialised chip, when the request exchange fails or brings no data,
  \<open>readUID\<close> returns the empty result in the very state the request exchange left, so
  that nothing of the anticollision step reaches the transport; and when the anticollision
  exchange fails or brings fewer than five bytes, it returns the empty result as well.
\<close>

theorem readUID_not_found:
  assumes "initialized w" and "request_exchange T w = Some (res, w2)"
  shows "((\<not> status res \<or> backData res = []) \<longrightarrow> readUID T w = Some ([], w2))
       \<and> (status res \<and> backData res \<noteq> [] \<and> anticoll_exchange T w2 = Some (res2, w4)
          \<and> (\<not> status res2 \<or> length (backData res2) < 5) \<longrightarrow> readUID T w = Some ([], w4))"
  using assms
  by (auto simp add: readUID_def request_exchange_def anticoll_exchange_def Let_def)

theorem readUID_not_found_witness:
  "readUID scripted no_card = Some ([], snd (the (request_exchange scripted no_card)))
   \<and> readUID scripted short_card =
       Some ([], snd (the (anticoll_exchange scripted
                            (snd (the (request_exchange scripted short_card))))))"
proof -
  let ?n2 = "snd (the (request_exchange scripted no_card))"
  let ?s2 = "snd (the (request_exchange scripted short_card))"
  let ?s4 = "snd (the (anticoll_exchange scripted ?s2))"
  have n1: "request_exchange scripted no_card =
      Some (\<lparr>status = False, backData = [], backBits = 0\<rparr>, ?n2)"
    by code_simp
  have s1: "request_exchange scripted short_card =
      Some (\<lparr>status = True, backData = [0x04, 0x00], backBits = 0\<rparr>, ?s2)"
    by code_simp
  have s2: "anticoll_exchange scripted ?s2 =
      Some (\<lparr>status = True, backData = [0x12, 0x34, 0x56], backBits = 0\<rparr>, ?s4)"
    by code_simp
  have ni: "initialized no_card" and si: "initialized short_card"
    by (simp_all add: no_card_def short_card_def)
  from readUID_not_found [OF ni n1, of "\<lparr>status = False, backData = [], backBits = 0\<rparr>" ?n2]
    readUID_not_found [OF si s1, of "\<lparr>status = True, backData = [0x12, 0x34, 0x56], backBits = 0\<rparr>" ?s4]
    s2
  show ?thesis by simp
qed

section \<open>Before initialisation\<close>

text \<open>
  Claim C8 says that before \<open>init\<close> every public operation does nothing or fails closed,
  the diagnostic register read included. On a chip that was never initialised \<open>readReg\<close>
  does go to the bus: it frames the address, reads a byte and returns it.
\<close>

theorem readReg_unguarded_counterexample:
  "\<not> initialized fresh
   \<and> fst (readReg scripted 0x37 fresh) = 0x92
   \<and> trace fresh = []
   \<and> trace (snd (readReg scripted 0x37 fresh)) =
       [DigitalWrite P8 0, SpiWrite 0xEE, SpiRead 0x92, DigitalWrite P8 1]"
  by code_simp

text \<open>
  Claim C8, amended. Until \<open>init\<close> has completed, \<open>tagPresent\<close> returns false,
  \<open>readUID\<close> returns the empty string and \<open>haltTag\<close> returns at once, each as an
  ordinary value and in an unchanged state, hence without any call of the transport.
  \<open>readReg\<close> has no such guard: initialised or not, it is \<open>readRegister\<close>, one framed
  read on the bus. \<open>init\<close> ends with the chip marked initialised.
\<close>

theorem uninitialized_operations:
  assumes "\<not> initialized w"
  shows "tagPresent T w = Some (False, w)
       \<and> readUID T w = Some ([], w)
       \<and> haltTag T w = Some w
       \<and> readReg T addr w = readRegister T addr w
       \<and> added w (snd (readReg T addr w)) = read_frame (sdaPin w) addr (fst (readReg T addr w))
       \<and> initialized (init T sda rst w)"
  using assms
  by (simp add: tagPresent_def readUID_def haltTag_def readReg_def added_def readRegister_trace
      read_frame_def init_def Let_def)

theorem uninitialized_operations_witness:
  "\<not> initialized fresh
   \<and> tagPresent scripted fresh = Some (False, fresh)
   \<and> readUID scripted fresh = Some ([], fresh)
   \<and> haltTag scripted fresh = Some fresh
   \<and> fst (readReg scripted 0x37 fresh) = 0x92
   \<and> added fresh (snd (readReg scripted 0x37 fresh)) =
       [DigitalWrite P8 0, SpiWrite 0xEE, SpiRead 0x92, DigitalWrite P8 1]"
proof -
  have u: "\<not> initialized fresh" by (simp add: fresh_def boot_def)
  have v: "fst (readReg scripted 0x37 fresh) = 0x92" by code_simp
  have a: "read_frame (sdaPin fresh) 0x37 0x92 =
      [DigitalWrite P8 0, SpiWrite 0xEE, SpiRead 0x92, DigitalWrite P8 1]" by code_simp
  from uninitialized_operations [OF u, of scripted "0x37" P8 P12] u v a show ?thesis
    by (simp add: readReg_def)
qed

section \<open>Initialising twice\<close>

lemma digitalWritePin_simps [simp]:
  "trace (digitalWritePin T p v w) = trace w @ [DigitalWrite p v]"
  "sdaPin (digitalWritePin T p v w) = sdaPin w"
  "rstPin (digitalWritePin T p v w) = rstPin w"
  "sckPin (digitalWritePin T p v w) = sckPin w"
  "mosiPin (digitalWritePin T p v w) = mosiPin w"
  "misoPin (digitalWritePin T p v w) = misoPin w"
  "initialized (digitalWritePin T p v w) = initialized w"
  by (simp_all add: digitalWritePin_def)

lemma spiSetup_simps [simp]:
  "trace (spiSetup T w) =
     trace w @ [SpiPins (misoPin w) (mosiPin w) (sckPin w), SpiFrequency 1000000]"
  "sdaPin (spiSetup T w) = sdaPin w"
  "initialized (spiSetup T w) = initialized w"
  by (simp_all add: spiSetup_def spiPins_def spiFrequency_def)

lemma init_eq:
  "init T sda rst w = (antennaOn T (before_antenna T sda rst w))\<lparr>initialized := True\<rparr>"
  by (simp add: init_def before_antenna_def Let_def)

lemma before_antenna_sdaPin [simp]: "sdaPin (before_antenna T sda rst w) = sda"
  by (simp add: before_antenna_def reset_def)

lemma before_antenna_trace:
  "trace (before_antenna T sda rst w) =
     trace w @ [DigitalWrite sda 1, DigitalWrite rst 1,
                SpiPins (misoPin w) (mosiPin w) (sckPin w), SpiFrequency 1000000]
       @ write_frame sda CommandReg PCD_RESETPHASE
       @ write_frame sda TModeReg 0x8D
       @ write_frame sda TPrescalerReg 0x3E
       @ write_frame sda TReloadRegL 30
       @ write_frame sda TReloadRegH 0
       @ write_frame sda TxAutoReg 0x40
       @ write_frame sda ModeReg 0x3D"
  by (simp add: before_antenna_def reset_def writeRegister_added)

lemma antennaOn_trace:
  "trace (antennaOn T w) =
     trace w @ read_frame (sdaPin w) TxControlReg (fst (readRegister T TxControlReg w))
       @ (if js_and (fst (readRegister T TxControlReg w)) 0x03 \<noteq> 0x03
          then write_frame (sdaPin w) TxControlReg (js_or (fst (readRegister T TxControlReg w)) 0x03)
          else [])"
  by (simp add: antennaOn_def case_prod_beta writeRegister_added readRegister_trace read_frame_def)

lemma init_calls:
  "added w (init T sda rst w) =
     [DigitalWrite sda 1, DigitalWrite rst 1,
      SpiPins (misoPin w) (mosiPin w) (sckPin w), SpiFrequency 1000000]
       @ write_frame sda CommandReg PCD_RESETPHASE
       @ write_frame sda TModeReg 0x8D
       @ write_frame sda TPrescalerReg 0x3E
       @ write_frame sda TReloadRegL 30
       @ write_frame sda TReloadRegH 0
       @ write_frame sda TxAutoReg 0x40
       @ write_frame sda ModeReg 0x3D
       @ read_frame sda TxControlReg (antenna_read T sda rst w)
       @ (if js_and (antenna_read T sda rst w) 0x03 \<noteq> 0x03
          then write_frame sda TxControlReg (js_or (antenna_read T sda rst w) 0x03)
          else [])"
  by (rule added_append)
     (simp add: init_eq antennaOn_trace before_antenna_trace antenna_read_def)

lemma framed_addresses:
  "js_and (js_shl CommandReg 1) 0x7E = 0x02"
  "js_and (js_shl TModeReg 1) 0x7E = 0x54"
  "js_and (js_shl TPrescalerReg 1) 0x7E = 0x56"
  "js_and (js_shl TReloadRegL 1) 0x7E = 0x5A"
  "js_and (js_shl TReloadRegH 1) 0x7E = 0x58"
  "js_and (js_shl TxAutoReg 1) 0x7E = 0x2A"
  "js_and (js_shl ModeReg 1) 0x7E = 0x22"
  "js_and (js_shl TxControlReg 1) 0x7E = 0x28"
  by (simp_all add: frame_write reg_defs del: One_nat_def)

lemma init_reg_writes:
  "reg_writes (added w (init T sda rst w)) =
     init_writes @ antenna_writes (antenna_read T sda rst w)"
  by (simp add: init_calls write_frame_def read_frame_def framed_addresses init_writes_def
      antenna_writes_def PCD_RESETPHASE_def del: One_nat_def)

text \<open>
  Claim C9 says that two calls of \<open>init\<close> in a row make the same register writes. On a
  register file that keeps what is written, and starts with zeros, the first call ends with a
  write of the transmit-control register, the second finds both antenna bits set and makes no
  such write.
\<close>

theorem init_twice_counterexample:
  "reg_writes (added blank (init memory P8 P12 blank)) = init_writes @ [(0x28, 0x03)]
   \<and> reg_writes (added (init memory P8 P12 blank)
                    (init memory P8 P12 (init memory P8 P12 blank))) = init_writes
   \<and> reg_writes (added blank (init memory P8 P12 blank))
     \<noteq> reg_writes (added (init memory P8 P12 blank)
                        (init memory P8 P12 (init memory P8 P12 blank)))"
  by code_simp

text \<open>
  Claim C9, amended. Every call of \<open>init\<close> makes the same seven register writes (the
  reset command, the four timer registers, the modulation and the mode register); after them
  \<open>antennaOn\<close> reads the transmit-control register and writes it, with the two low bits
  added, only if they are not both set in the value read. So two calls in a row make the same
  register writes exactly when their antenna steps write the same.
\<close>

theorem init_register_writes:
  "reg_writes (added w (init T sda rst w)) =
     init_writes @ antenna_writes (antenna_read T sda rst w)
   \<and> reg_writes (added (init T sda rst w) (init T sda rst (init T sda rst w))) =
     init_writes @ antenna_writes (antenna_read T sda rst (init T sda rst w))
   \<and> (reg_writes (added w (init T sda rst w)) =
       reg_writes (added (init T sda rst w) (init T sda rst (init T sda rst w))))
     = (antenna_writes (antenna_read T sda rst w) =
        antenna_writes (antenna_read T sda rst (init T sda rst w)))"
  by (simp add: init_reg_writes)

section \<open>Halting the card\<close>

lemma same_vars_polled [simp]: "same_vars w (polled T reg k w)"
proof (induction k)
  case 0
  show ?case by simp
next
  case (Suc k)
  show ?case
    using same_vars_trans [OF Suc same_vars_readRegister] by (simp add: polled_Suc')
qed

lemma same_vars_crc_outcome [simp]: "same_vars w (snd (crc_outcome T n w))"
proof (cases "find (\<lambda>j. bit (seen T DivIrqReg w j) 2) [0..<n]")
  case None
  then show ?thesis by (simp add: crc_outcome_def)
next
  case (Some k)
  let ?p = "polled T DivIrqReg (Suc k) w"
  let ?l = "snd (readRegister T 0x22 ?p)"
  have "same_vars w ?l"
    using same_vars_trans [OF same_vars_polled same_vars_readRegister] .
  then have "same_vars w (snd (readRegister T 0x21 ?l))"
    by (rule same_vars_trans) (rule same_vars_readRegister)
  then show ?thesis
    using Some by (simp add: crc_outcome_def case_prod_beta)
qed

lemma same_vars_crc_setup [simp]: "same_vars w (crc_setup T data w)"
proof -
  let ?w1 = "writeRegister T CommandReg PCD_IDLE w"
  let ?w2 = "setBitMask T DivIrqReg 0x04 ?w1"
  let ?w3 = "writeRegister T FIFOLevelReg 0x80 ?w2"
  let ?w4 = "write_fifo T data ?w3"
  have "same_vars w ?w1" by (rule same_vars_writeRegister)
  then have "same_vars w ?w2" by (rule same_vars_trans) (rule same_vars_setBitMask)
  then have "same_vars w ?w3" by (rule same_vars_trans) (rule same_vars_writeRegister)
  then have "same_vars w ?w4" by (rule same_vars_trans) (rule same_vars_write_fifo)
  then have "same_vars w (writeRegister T CommandReg PCD_CALCCRC ?w4)"
    by (rule same_vars_trans) (rule same_vars_writeRegister)
  then show ?thesis by (simp add: crc_setup_def Let_def)
qed

lemma calculateCRC_outcome: "calculateCRC T data w = crc_outcome T 255 (crc_setup T data w)"
  by (simp add: calculateCRC_def crc_wait_outcome del: crc_wait.simps)

lemma same_vars_calculateCRC [simp]: "same_vars w (snd (calculateCRC T data w))"
  using same_vars_trans [OF same_vars_crc_setup same_vars_crc_outcome]
  by (simp add: calculateCRC_outcome)

lemma calculateCRC_length: "length (fst (calculateCRC T data w)) = 2"
  by (simp add: calculateCRC_outcome crc_outcome_def case_prod_beta split: option.splits)

lemma same_vars_read_fifo [simp]: "same_vars w (snd (read_fifo T k w))"
proof (induction k arbitrary: w)
  case 0
  show ?case by simp
next
  case (Suc k)
  show ?case
    using same_vars_trans [OF same_vars_readRegister Suc]
    by (simp add: case_prod_beta)
qed

lemma same_vars_collect [simp]: "same_vars w (snd (collect T command w))"
proof -
  let ?w1 = "clearBitMask T BitFramingReg 0x80 w"
  let ?w2 = "snd (readRegister T ErrorReg ?w1)"
  let ?w3 = "snd (readRegister T CommIrqReg ?w2)"
  let ?w4 = "snd (readRegister T FIFOLevelReg ?w3)"
  let ?w5 = "snd (read_fifo T (nat (fst (readRegister T FIFOLevelReg ?w3))) ?w4)"
  let ?w6 = "snd (readRegister T ControlReg ?w5)"
  have "same_vars w ?w1" by (rule same_vars_clearBitMask)
  then have "same_vars w ?w2" by (rule same_vars_trans) (rule same_vars_readRegister)
  then have 3: "same_vars w ?w3" by (rule same_vars_trans) (rule same_vars_readRegister)
  then have "same_vars w ?w4" by (rule same_vars_trans) (rule same_vars_readRegister)
  then have "same_vars w ?w5" by (rule same_vars_trans) (rule same_vars_read_fifo)
  then have 6: "same_vars w ?w6" by (rule same_vars_trans) (rule same_vars_readRegister)
  show ?thesis
    using 3 6 by (simp add: collect_def Let_def case_prod_beta)
qed

lemma same_vars_communicate:
  assumes "communicateWithPICC T command sendData timeoutMs w = Some (res, w')"
  shows "same_vars w w'"
proof -
  let ?e = "wait_entry T command sendData w"
  obtain w3 where
    w3: "wait_for_data T (snd (irq_masks command)) (fst ?e) timeoutMs (snd ?e) = Some w3"
    and out: "collect T command w3 = (res, w')"
    using assms
    by (auto simp add: communicateWithPICC_def wait_entry_def Let_def case_prod_beta
        split: option.splits)
  have "same_vars w w3"
    using same_vars_trans [OF same_vars_wait_entry same_vars_wait_for_data [OF w3]] .
  moreover have "same_vars w3 w'"
    using same_vars_collect [of w3 T command] out by simp
  ultimately show ?thesis by (rule same_vars_trans)
qed

text \<open>
  Claim C10. On an initialised chip \<open>haltTag\<close> computes the CRC of the two bytes HALT and
  0x00, which is always two bytes, sends the four bytes in a TRANSCEIVE exchange with the
  default timeout, and returns nothing: of the outcome of the exchange only the state is kept,
  the result with its status is dropped, and the namespace's variables are as before.
\<close>

theorem haltTag_discards_result:
  assumes "initialized w"
  shows "haltTag T w =
           map_option snd
             (communicateWithPICC T PCD_TRANSCEIVE
               (PICC_HALT # 0x00 # fst (calculateCRC T [PICC_HALT, 0x00] w)) 200
               (snd (calculateCRC T [PICC_HALT, 0x00] w)))
       \<and> length (fst (calculateCRC T [PICC_HALT, 0x00] w)) = 2
       \<and> (\<forall>w'. haltTag T w = Some w' \<longrightarrow> same_vars w w')"
proof -
  let ?crc = "fst (calculateCRC T [PICC_HALT, 0x00] w)"
  let ?w1 = "snd (calculateCRC T [PICC_HALT, 0x00] w)"
  let ?out = "communicateWithPICC T PCD_TRANSCEIVE (PICC_HALT # 0x00 # ?crc) 200 ?w1"
  have len: "length ?crc = 2" by (rule calculateCRC_length)
  then obtain l h where lh: "?crc = [l, h]"
    by (auto simp add: length_Suc_conv numeral_2_eq_2)
  have eq: "haltTag T w = map_option snd ?out"
    using assms lh
    by (cases ?out) (auto simp add: haltTag_def case_prod_beta Let_def)
  have "same_vars w w'" if "haltTag T w = Some w'" for w'
  proof -
    have "map_option snd ?out = Some w'"
      using that eq by simp
    then obtain r where "?out = Some (r, w')"
      by (cases ?out) auto
    then have "same_vars ?w1 w'" by (rule same_vars_communicate)
    then show ?thesis
      using same_vars_trans [OF same_vars_calculateCRC] by blast
  qed
  then show ?thesis using eq len by blast
qed

theorem haltTag_discards_result_witness:
  "initialized deaf_card
   \<and> fst (calculateCRC scripted [PICC_HALT, 0x00] deaf_card) = [0x57, 0xCD]
   \<and> map_option fst
       (communicateWithPICC scripted PCD_TRANSCEIVE [PICC_HALT, 0x00, 0x57, 0xCD] 200
         (snd (calculateCRC scripted [PICC_HALT, 0x00] deaf_card)))
     = Some \<lparr>status = False, backData = [], backBits = 0\<rparr>
   \<and> haltTag scripted deaf_card =
       map_option snd
         (communicateWithPICC scripted PCD_TRANSCEIVE [PICC_HALT, 0x00, 0x57, 0xCD] 200
           (snd (calculateCRC scripted [PICC_HALT, 0x00] deaf_card)))
   \<and> haltTag scripted deaf_card \<noteq> None"
proof -
  have i: "initialized deaf_card" by (simp add: deaf_card_def)
  have c: "fst (calculateCRC scripted [PICC_HALT, 0x00] deaf_card) = [0x57, 0xCD]"
    by code_simp
  have r: "map_option fst
       (communicateWithPICC scripted PCD_TRANSCEIVE [PICC_HALT, 0x00, 0x57, 0xCD] 200
         (snd (calculateCRC scripted [PICC_HALT, 0x00] deaf_card)))
     = Some \<lparr>status = False, backData = [], backBits = 0\<rparr>"
    by code_simp
  from haltTag_discards_result [OF i, of scripted] c r i show ?thesis
    by auto
qed

end
